theory Spec2Isabelle
  imports Complex_Main "HOL-Library.Monad_Syntax"
begin

section \<open>Numbers of the host language\<close>

text \<open>
  The regression engine computes on the numbers of its host language, double-precision
  values with rounding after every operation. The embedding does not fix this
  arithmetic. Every function of the engine is written over an arbitrary type \<open>'n\<close> of
  numbers: its \<open>+\<close>, \<open>-\<close>, \<open>*\<close>, \<open>/\<close>, \<open>Math.abs\<close> and \<open>>\<close> are those of the type, with
  no law assumed of them, and the remaining operations of the host come in a record
  \<open>host\<close>. A theorem stated for every \<open>'n\<close> and every host therefore holds of the
  arithmetic of the real engine, whatever it rounds.

  Two arithmetics are given. In \<open>exact\<close> a finite number is a real and no operation
  rounds, overflows or underflows; it is used on inputs where the doubles compute the
  same result, every intermediate value being a double or the values that are rounded
  to the precision lying far from a tie. In \<open>binary64\<close> every operation
  rounds its exact result to the nearest double, ties to the even one, overflowing to an
  infinity. Both keep Infinity, -Infinity and NaN and what every operation does with
  them (a division by zero is not an error). Neither has a negative zero: a zero divisor
  is the positive zero.
\<close>

datatype num = Fin real | PInf | NInf | NaN

instantiation num :: "{plus, uminus, times, abs}"
begin

fun plus_num :: "num \<Rightarrow> num \<Rightarrow> num" where
  "plus_num NaN b = NaN"
| "plus_num a NaN = NaN"
| "plus_num PInf NInf = NaN"
| "plus_num NInf PInf = NaN"
| "plus_num PInf b = PInf"
| "plus_num a PInf = PInf"
| "plus_num NInf b = NInf"
| "plus_num a NInf = NInf"
| "plus_num (Fin a) (Fin b) = Fin (a + b)"

fun uminus_num :: "num \<Rightarrow> num" where
  "uminus_num (Fin a) = Fin (- a)"
| "uminus_num PInf = NInf"
| "uminus_num NInf = PInf"
| "uminus_num NaN = NaN"

fun times_num :: "num \<Rightarrow> num \<Rightarrow> num" where
  "times_num NaN b = NaN"
| "times_num a NaN = NaN"
| "times_num (Fin a) (Fin b) = Fin (a * b)"
| "times_num (Fin a) PInf = (if a = 0 then NaN else if 0 < a then PInf else NInf)"
| "times_num (Fin a) NInf = (if a = 0 then NaN else if 0 < a then NInf else PInf)"
| "times_num PInf (Fin b) = (if b = 0 then NaN else if 0 < b then PInf else NInf)"
| "times_num NInf (Fin b) = (if b = 0 then NaN else if 0 < b then NInf else PInf)"
| "times_num PInf PInf = PInf"
| "times_num PInf NInf = NInf"
| "times_num NInf PInf = NInf"
| "times_num NInf NInf = PInf"

fun abs_num :: "num \<Rightarrow> num" where
  "abs_num (Fin a) = Fin \<bar>a\<bar>"
| "abs_num PInf = PInf"
| "abs_num NInf = PInf"
| "abs_num NaN = NaN"

instance ..

end

instantiation num :: "{minus, inverse, ord}"
begin

definition minus_num :: "num \<Rightarrow> num \<Rightarrow> num" where
  "minus_num a b = a + (- b)"

fun divide_num :: "num \<Rightarrow> num \<Rightarrow> num" where
  "divide_num NaN b = NaN"
| "divide_num a NaN = NaN"
| "divide_num (Fin a) (Fin b) =
     (if b \<noteq> 0 then Fin (a / b)
      else if a = 0 then NaN else if 0 < a then PInf else NInf)"
| "divide_num (Fin a) PInf = Fin 0"
| "divide_num (Fin a) NInf = Fin 0"
| "divide_num PInf (Fin b) = (if 0 \<le> b then PInf else NInf)"
| "divide_num NInf (Fin b) = (if 0 \<le> b then NInf else PInf)"
| "divide_num PInf b = NaN"
| "divide_num NInf b = NaN"

definition inverse_num :: "num \<Rightarrow> num" where
  "inverse_num a = divide (Fin 1) a"

fun less_num :: "num \<Rightarrow> num \<Rightarrow> bool" where
  "less_num NaN b = False"
| "less_num a NaN = False"
| "less_num (Fin a) (Fin b) = (a < b)"
| "less_num a NInf = False"
| "less_num PInf b = False"
| "less_num NInf b = True"
| "less_num a PInf = True"

fun less_eq_num :: "num \<Rightarrow> num \<Rightarrow> bool" where
  "less_eq_num NaN b = False"
| "less_eq_num a NaN = False"
| "less_eq_num a b = (a = b \<or> a < b)"

instance ..

end

text \<open>Strict equality \<open>===\<close> on numbers: NaN equals nothing, itself included.\<close>

definition strictEq :: "num \<Rightarrow> num \<Rightarrow> bool" where
  "strictEq a b = (a \<noteq> NaN \<and> a = b)"

text \<open>
  \<open>Math.round\<close>: the nearest integer, a tie going to the larger one (towards
  +Infinity); the special values are returned as they are.
\<close>

fun mathRound :: "num \<Rightarrow> num" where
  "mathRound (Fin a) = Fin (of_int \<lfloor>a + 1 / 2\<rfloor>)"
| "mathRound a = a"

text \<open>\<open>Math.log\<close> and \<open>Math.exp\<close>.\<close>

fun mathLog :: "num \<Rightarrow> num" where
  "mathLog (Fin a) = (if a < 0 then NaN else if a = 0 then NInf else Fin (ln a))"
| "mathLog PInf = PInf"
| "mathLog NInf = NaN"
| "mathLog NaN = NaN"

fun mathExp :: "num \<Rightarrow> num" where
  "mathExp (Fin a) = Fin (exp a)"
| "mathExp PInf = PInf"
| "mathExp NInf = Fin 0"
| "mathExp NaN = NaN"

text \<open>
  The exponentiation operator \<open>**\<close>, case by case as the language standard lists them:
  a zero exponent gives 1 whatever the base, NaN included; a negative base with a
  fractional exponent gives NaN. An integral exponent is computed by repeated
  multiplication or division, any other by the real power function.
\<close>

definition isIntegral :: "real \<Rightarrow> bool" where
  "isIntegral b = (of_int \<lfloor>b\<rfloor> = b)"

definition isOddIntegral :: "real \<Rightarrow> bool" where
  "isOddIntegral b = (isIntegral b \<and> odd \<lfloor>b\<rfloor>)"

fun pow :: "num \<Rightarrow> num \<Rightarrow> num" where
  "pow a NaN = NaN"
| "pow NaN b = (if b = Fin 0 then Fin 1 else NaN)"
| "pow PInf PInf = PInf"
| "pow PInf NInf = Fin 0"
| "pow PInf (Fin b) = (if b = 0 then Fin 1 else if 0 < b then PInf else Fin 0)"
| "pow NInf PInf = PInf"
| "pow NInf NInf = Fin 0"
| "pow NInf (Fin b) =
     (if b = 0 then Fin 1
      else if 0 < b then (if isOddIntegral b then NInf else PInf)
      else Fin 0)"
| "pow (Fin a) PInf =
     (if a = 0 then Fin 0
      else if 1 < \<bar>a\<bar> then PInf else if \<bar>a\<bar> = 1 then NaN else Fin 0)"
| "pow (Fin a) NInf =
     (if a = 0 then PInf
      else if 1 < \<bar>a\<bar> then Fin 0 else if \<bar>a\<bar> = 1 then NaN else PInf)"
| "pow (Fin a) (Fin b) =
     (if b = 0 then Fin 1
      else if a = 0 then (if 0 < b then Fin 0 else PInf)
      else if isIntegral b then Fin (a powi \<lfloor>b\<rfloor>)
      else if a < 0 then NaN
      else Fin (a powr b))"

definition ofInt :: "int \<Rightarrow> num" where
  "ofInt i = Fin (of_int i)"

subsection \<open>What the engine asks of its host\<close>

text \<open>
  Beside the arithmetic of the number type: the number of an integer literal or
  counter (\<open>lit\<close>), what arithmetic makes of \<open>undefined\<close> (\<open>undef\<close>, which is NaN),
  \<open>===\<close>, \<open>Math.round\<close> and \<open>**\<close>; and, for the three fits that take logarithms,
  \<open>Math.log\<close> and \<open>Math.exp\<close>.
\<close>

record 'n host =
  lit :: "int \<Rightarrow> 'n"
  undef :: "'n"
  strict_eq :: "'n \<Rightarrow> 'n \<Rightarrow> bool"
  Math_round :: "'n \<Rightarrow> 'n"
  power_op :: "'n \<Rightarrow> 'n \<Rightarrow> 'n"

record 'n host_logs =
  Math_log :: "'n \<Rightarrow> 'n"
  Math_exp :: "'n \<Rightarrow> 'n"

definition exact :: "num host" where
  "exact =
     \<lparr>lit = ofInt, undef = NaN, strict_eq = strictEq, Math_round = mathRound,
      power_op = pow\<rparr>"

definition exact_logs :: "num host_logs" where
  "exact_logs = \<lparr>Math_log = mathLog, Math_exp = mathExp\<rparr>"

subsection \<open>Double precision\<close>

text \<open>
  Rounding a real to the nearest double. \<open>binade x\<close> is the exponent \<open>e\<close> with
  \<open>2\<^sup>e \<le> |x| < 2\<^bsup>e+1\<^esup>\<close>, found by bisection between -1023 and 1024; below the
  normal range the exponent stays -1022. A double of that binade is a multiple of
  \<open>2\<^bsup>e-52\<^esup>\<close>; the multiple nearest to \<open>x\<close> is taken, the even one on a tie, and a
  result of magnitude \<open>2\<^sup>1\<^sup>0\<^sup>2\<^sup>4\<close> or more is an infinity.
\<close>

definition roundHalfEven :: "real \<Rightarrow> int" where
  "roundHalfEven q =
     (let f = \<lfloor>q\<rfloor>; r = q - of_int f
      in if r < 1 / 2 then f
         else if 1 / 2 < r then f + 1
         else if even f then f else f + 1)"

definition binade :: "real \<Rightarrow> int" where
  "binade x =
     fold (\<lambda>s e. if 2 powi (e + s) \<le> \<bar>x\<bar> then e + s else e)
          [1024, 512, 256, 128, 64, 32, 16, 8, 4, 2, 1] (- 1023)"

definition round64 :: "real \<Rightarrow> num" where
  "round64 x =
     (if x = 0 then Fin 0
      else
        let e = max (binade x) (- 1022);
            ulp = 2 powi (e - 52);
            y = of_int (roundHalfEven (x / ulp)) * ulp
        in if 2 powi 1024 \<le> \<bar>y\<bar> then (if 0 < x then PInf else NInf) else Fin y)"

fun fl :: "num \<Rightarrow> num" where
  "fl (Fin x) = round64 x"
| "fl a = a"

text \<open>
  A double is a number of the exact arithmetic; its operations are the exact ones
  followed by the rounding. \<open>Math.round\<close> of a double is a double already. \<open>**\<close>,
  \<open>Math.log\<close> and \<open>Math.exp\<close> are taken correctly rounded, which the language
  standard does not promise; below only powers of 10 are computed with them.
\<close>

datatype double = Double num

instantiation double :: "{plus, minus, times, inverse, abs, ord}"
begin

fun plus_double :: "double \<Rightarrow> double \<Rightarrow> double" where
  "plus_double (Double a) (Double b) = Double (fl (a + b))"

fun minus_double :: "double \<Rightarrow> double \<Rightarrow> double" where
  "minus_double (Double a) (Double b) = Double (fl (a - b))"

fun times_double :: "double \<Rightarrow> double \<Rightarrow> double" where
  "times_double (Double a) (Double b) = Double (fl (a * b))"

fun divide_double :: "double \<Rightarrow> double \<Rightarrow> double" where
  "divide_double (Double a) (Double b) = Double (fl (a / b))"

fun inverse_double :: "double \<Rightarrow> double" where
  "inverse_double (Double a) = Double (fl (Fin 1 / a))"

fun abs_double :: "double \<Rightarrow> double" where
  "abs_double (Double a) = Double \<bar>a\<bar>"

fun less_double :: "double \<Rightarrow> double \<Rightarrow> bool" where
  "less_double (Double a) (Double b) = (a < b)"

fun less_eq_double :: "double \<Rightarrow> double \<Rightarrow> bool" where
  "less_eq_double (Double a) (Double b) = (a \<le> b)"

instance ..

end

fun strictEq64 :: "double \<Rightarrow> double \<Rightarrow> bool" where
  "strictEq64 (Double a) (Double b) = strictEq a b"

fun mathRound64 :: "double \<Rightarrow> double" where
  "mathRound64 (Double a) = Double (mathRound a)"

fun mathLog64 :: "double \<Rightarrow> double" where
  "mathLog64 (Double a) = Double (fl (mathLog a))"

fun mathExp64 :: "double \<Rightarrow> double" where
  "mathExp64 (Double a) = Double (fl (mathExp a))"

fun pow64 :: "double \<Rightarrow> double \<Rightarrow> double" where
  "pow64 (Double a) (Double b) = Double (fl (pow a b))"

text \<open>The double a decimal literal of the source denotes.\<close>

definition dbl :: "real \<Rightarrow> double" where
  "dbl q = Double (round64 q)"

definition binary64 :: "double host" where
  "binary64 =
     \<lparr>lit = (\<lambda>i. dbl (of_int i)), undef = Double NaN, strict_eq = strictEq64,
      Math_round = mathRound64, power_op = pow64\<rparr>"

definition binary64_logs :: "double host_logs" where
  "binary64_logs = \<lparr>Math_log = mathLog64, Math_exp = mathExp64\<rparr>"

section \<open>Data model\<close>

text \<open>
  A point has an x and a y; y may be \<open>null\<close> (no observation at this x), which is
  \<open>None\<close> here. Where a \<open>null\<close> reaches an arithmetic operation the host language
  reads it as 0 (\<open>yValue\<close>).
\<close>

record 'n IApg2DPoint =
  pt_x :: 'n
  pt_y :: "'n option"

definition yValue :: "'n host \<Rightarrow> 'n IApg2DPoint \<Rightarrow> 'n" where
  "yValue H p = (case pt_y p of None \<Rightarrow> lit H 0 | Some v \<Rightarrow> v)"

text \<open>The options, integer-valued as the data model of the specification has them.\<close>

record IApgRegrOptions =
  order :: int
  precision :: int

definition DEFAULT_OPTIONS :: IApgRegrOptions where
  "DEFAULT_OPTIONS = \<lparr>order = 2, precision = 3\<rparr>"

datatype eApgRegrTypes = LINEAR | POLYNOMIAL | POWER | LOGARITMIC | EXPONENTIAL

text \<open>
  An equation is a template literal: fixed text with numbers put in. It is kept as the
  list of its pieces, a number staying a number (the host's rendering of a number as
  decimal text is not part of the engine).
\<close>

datatype 'n piece = Txt string | Val 'n

record 'n IApgRegrResult =
  points :: "'n IApg2DPoint list"
  predicted :: "'n IApg2DPoint list"
  rtype :: eApgRegrTypes
  coefficients :: "'n list"
  equation :: "'n piece list"
  r2 :: 'n

section \<open>Rounding\<close>

definition round_num :: "('n::{plus,minus,times,inverse,abs,ord}) host \<Rightarrow> 'n \<Rightarrow> int \<Rightarrow> 'n" where
  "round_num H number prec =
     (let factor = power_op H (lit H 10) (lit H prec)
      in Math_round H (number * factor) / factor)"

section \<open>Coefficient of determination\<close>

text \<open>
  The \<open>forEach\<close> walks the points with their index and keeps, for every point with a
  y, the point and the entry of \<open>results\<close> at the same index; past the end of
  \<open>results\<close> that entry is \<open>undefined\<close> (\<open>None\<close>), and reading its y in the third
  \<open>reduce\<close> throws a TypeError: the function then returns nothing (\<open>None\<close>).
\<close>

fun observed :: "'n IApg2DPoint list \<Rightarrow> 'n IApg2DPoint list \<Rightarrow> ('n IApg2DPoint \<times> 'n IApg2DPoint option) list" where
  "observed [] results = []"
| "observed (point # rest) results =
     (if pt_y point \<noteq> None
      then [(point, case results of [] \<Rightarrow> None | r # _ \<Rightarrow> Some r)]
      else []) @ observed rest (tl results)"

definition determinationCoefficient ::
  "('n::{plus,minus,times,inverse,abs,ord}) host \<Rightarrow> 'n IApg2DPoint list \<Rightarrow> 'n IApg2DPoint list \<Rightarrow> 'n option" where
  "determinationCoefficient H apoints results =
     (let observations = map fst (observed apoints results);
          predictions = map snd (observed apoints results);
          sum = foldl (\<lambda>accum acurrent. accum + yValue H acurrent) (lit H 0) observations;
          mean = sum / lit H (int (length observations));
          squaredDeviationFromMean =
            foldl (\<lambda>accum acurrent.
                     let difference = yValue H acurrent - mean
                     in accum + difference * difference) (lit H 0) observations
      in if None \<in> set predictions then None
         else
           let squardDifferenceFromPredicted =
                 foldl (\<lambda>accum (acurrent, prediction).
                          let residual = yValue H acurrent - yValue H prediction
                          in accum + residual * residual) (lit H 0)
                       (zip observations (map the predictions))
           in Some (lit H 1 - squardDifferenceFromPredicted / squaredDeviationFromMean))"

section \<open>Gaussian elimination\<close>

text \<open>
  The matrix is an array of arrays, \<open>matrix[k][i]\<close> being the entry of unknown \<open>k\<close>
  in equation \<open>i\<close>, with the right-hand sides as the last array. Arrays are objects:
  the heap is the list of the number arrays there are, an array being known by its
  place in it, and an array of arrays is the list of the references of its arrays.
  \<open>const matrix = input\<close> copies a reference, so the function reads and writes the
  arrays of its caller; it returns the heap it leaves with the coefficients.

  The first index is at most \<open>n = input.length - 1\<close> wherever the source reads or
  writes, so the array \<open>matrix[k]\<close> always exists. An entry read past the end of that
  array is \<open>undefined\<close>, which every arithmetic operation and comparison treats as NaN;
  a write past the end lengthens the array, the skipped places staying \<open>undefined\<close>.
\<close>

type_synonym 'n heap = "'n list list"

type_synonym matrix = "nat list"

definition item :: "'n host \<Rightarrow> 'n list \<Rightarrow> nat \<Rightarrow> 'n" where
  "item H a i = (if i < length a then a ! i else undef H)"

definition assign :: "'n host \<Rightarrow> 'n list \<Rightarrow> nat \<Rightarrow> 'n \<Rightarrow> 'n list" where
  "assign H a i v =
     (if i < length a then a[i := v]
      else a @ replicate (i - length a) (undef H) @ [v])"

definition entry :: "'n host \<Rightarrow> 'n heap \<Rightarrow> matrix \<Rightarrow> nat \<Rightarrow> nat \<Rightarrow> 'n" where
  "entry H h m k i = item H (h ! (m ! k)) i"

definition setEntry :: "'n host \<Rightarrow> 'n heap \<Rightarrow> matrix \<Rightarrow> nat \<Rightarrow> nat \<Rightarrow> 'n \<Rightarrow> 'n heap" where
  "setEntry H h m k i v = h[m ! k := assign H (h ! (m ! k)) i v]"

definition findMaxrow :: "('n::{plus,minus,times,inverse,abs,ord}) host \<Rightarrow> 'n heap \<Rightarrow> matrix \<Rightarrow> nat \<Rightarrow> nat \<Rightarrow> nat" where
  "findMaxrow H h m n i =
     fold (\<lambda>j maxrow. if \<bar>entry H h m i j\<bar> > \<bar>entry H h m i maxrow\<bar> then j else maxrow)
          [i + 1..<n] i"

definition swapStep :: "'n host \<Rightarrow> matrix \<Rightarrow> nat \<Rightarrow> nat \<Rightarrow> nat \<Rightarrow> 'n heap \<Rightarrow> 'n heap" where
  "swapStep H m i maxrow k h =
     (let tmp = entry H h m k i;
          h = setEntry H h m k i (entry H h m k maxrow)
      in setEntry H h m k maxrow tmp)"

definition swapEntries :: "'n host \<Rightarrow> 'n heap \<Rightarrow> matrix \<Rightarrow> nat \<Rightarrow> nat \<Rightarrow> nat \<Rightarrow> 'n heap" where
  "swapEntries H h m n i maxrow = fold (swapStep H m i maxrow) [i..<n + 1] h"

definition eliminateStep :: "('n::{plus,minus,times,inverse,abs,ord}) host \<Rightarrow> matrix \<Rightarrow> nat \<Rightarrow> nat \<Rightarrow> nat \<Rightarrow> 'n heap \<Rightarrow> 'n heap" where
  "eliminateStep H m i j k h =
     setEntry H h m k j
       (entry H h m k j - (entry H h m k i * entry H h m i j) / entry H h m i i)"

definition eliminateColumn :: "('n::{plus,minus,times,inverse,abs,ord}) host \<Rightarrow> 'n heap \<Rightarrow> matrix \<Rightarrow> nat \<Rightarrow> nat \<Rightarrow> nat \<Rightarrow> 'n heap" where
  "eliminateColumn H h m n i j = fold (eliminateStep H m i j) (rev [i..<n + 1]) h"

definition eliminate :: "('n::{plus,minus,times,inverse,abs,ord}) host \<Rightarrow> 'n heap \<Rightarrow> matrix \<Rightarrow> nat \<Rightarrow> nat \<Rightarrow> 'n heap" where
  "eliminate H h m n i = fold (\<lambda>j h. eliminateColumn H h m n i j) [i + 1..<n] h"

definition pivotStep :: "('n::{plus,minus,times,inverse,abs,ord}) host \<Rightarrow> matrix \<Rightarrow> nat \<Rightarrow> nat \<Rightarrow> 'n heap \<Rightarrow> 'n heap" where
  "pivotStep H m n i h = eliminate H (swapEntries H h m n i (findMaxrow H h m n i)) m n i"

definition backStep :: "('n::{plus,minus,times,inverse,abs,ord}) host \<Rightarrow> 'n heap \<Rightarrow> matrix \<Rightarrow> nat \<Rightarrow> nat \<Rightarrow> 'n list \<Rightarrow> 'n list" where
  "backStep H h m n j coeffs =
     (let total = fold (\<lambda>k total. total + entry H h m k j * item H coeffs k)
                       [j + 1..<n] (lit H 0)
      in assign H coeffs j ((entry H h m n j - total) / entry H h m j j))"

definition backSubstitute :: "('n::{plus,minus,times,inverse,abs,ord}) host \<Rightarrow> 'n heap \<Rightarrow> matrix \<Rightarrow> nat \<Rightarrow> 'n list \<Rightarrow> 'n list" where
  "backSubstitute H h m n coefficients0 = fold (backStep H h m n) (rev [0..<n]) coefficients0"

definition gaussianElimination :: "('n::{plus,minus,times,inverse,abs,ord}) host \<Rightarrow> 'n heap \<Rightarrow> matrix \<Rightarrow> int \<Rightarrow> 'n heap \<times> 'n list" where
  "gaussianElimination H h input ord =
     (let matrix = input;
          n = length input - 1;
          coefficients = [lit H ord];
          h = fold (pivotStep H matrix n) [0..<n] h
      in (h, backSubstitute H h matrix n coefficients))"

section \<open>The five fits\<close>

text \<open>
  Every fit sums over the points with a y in one pass, derives its coefficients, maps its
  prediction function over the x of every point and asks \<open>determinationCoefficient\<close>
  for \<open>r2\<close>. The arrays of running sums are lists, updated place by place.
\<close>

definition predictedPoint :: "('n::{plus,minus,times,inverse,abs,ord}) host \<Rightarrow> 'n \<Rightarrow> 'n \<Rightarrow> int \<Rightarrow> 'n IApg2DPoint" where
  "predictedPoint H x newY prec =
     \<lparr>pt_x = round_num H x prec, pt_y = Some (round_num H newY prec)\<rparr>"

subsection \<open>linear\<close>

definition linearSums :: "('n::{plus,minus,times,inverse,abs,ord}) host \<Rightarrow> 'n IApg2DPoint list \<Rightarrow> nat \<times> 'n list" where
  "linearSums H apoints =
     fold (\<lambda>p (len, sum).
             case pt_y p of
               None \<Rightarrow> (len, sum)
             | Some y \<Rightarrow>
                 (len + 1,
                  [sum ! 0 + pt_x p,
                   sum ! 1 + y,
                   sum ! 2 + pt_x p * pt_x p,
                   sum ! 3 + pt_x p * y,
                   sum ! 4 + y * y]))
          apoints (0, [lit H 0, lit H 0, lit H 0, lit H 0, lit H 0])"

definition linearRun :: "('n::{plus,minus,times,inverse,abs,ord}) host \<Rightarrow> 'n IApg2DPoint list \<Rightarrow> 'n" where
  "linearRun H apoints =
     (let (len, sum) = linearSums H apoints
      in (lit H (int len) * sum ! 2) - (sum ! 0 * sum ! 0))"

definition linearRise :: "('n::{plus,minus,times,inverse,abs,ord}) host \<Rightarrow> 'n IApg2DPoint list \<Rightarrow> 'n" where
  "linearRise H apoints =
     (let (len, sum) = linearSums H apoints
      in (lit H (int len) * sum ! 3) - (sum ! 0 * sum ! 1))"

definition linearGradient :: "('n::{plus,minus,times,inverse,abs,ord}) host \<Rightarrow> 'n IApg2DPoint list \<Rightarrow> int \<Rightarrow> 'n" where
  "linearGradient H apoints prec =
     (let run = linearRun H apoints; rise = linearRise H apoints
      in if strict_eq H run (lit H 0) then lit H 0 else round_num H (rise / run) prec)"

definition linearIntercept :: "('n::{plus,minus,times,inverse,abs,ord}) host \<Rightarrow> 'n IApg2DPoint list \<Rightarrow> 'n \<Rightarrow> int \<Rightarrow> 'n" where
  "linearIntercept H apoints gradient prec =
     (let (len, sum) = linearSums H apoints
      in round_num H ((sum ! 1 / lit H (int len)) - ((gradient * sum ! 0) / lit H (int len))) prec)"

definition predictLinearFn :: "('n::{plus,minus,times,inverse,abs,ord}) host \<Rightarrow> 'n \<Rightarrow> 'n \<Rightarrow> int \<Rightarrow> 'n \<Rightarrow> 'n IApg2DPoint" where
  "predictLinearFn H gradient intercept prec x =
     (let newY = (gradient * x) + intercept
      in predictedPoint H x newY prec)"

definition linear_fit ::
  "('n::{plus,minus,times,inverse,abs,ord}) host \<Rightarrow> 'n IApg2DPoint list \<Rightarrow> IApgRegrOptions \<Rightarrow> 'n IApgRegrResult option" where
  "linear_fit H apoints aoptions =
     (let gradient = linearGradient H apoints (precision aoptions);
          intercept = linearIntercept H apoints gradient (precision aoptions);
          predicted = map (\<lambda>point. predictLinearFn H gradient intercept (precision aoptions) (pt_x point)) apoints
      in do {
        r2 \<leftarrow> determinationCoefficient H apoints predicted;
        Some \<lparr>points = apoints,
              predicted = predicted,
              rtype = LINEAR,
              coefficients = [gradient, intercept],
              equation =
                (if strict_eq H intercept (lit H 0)
                 then [Txt ''y = '', Val gradient, Txt ''x'']
                 else [Txt ''y = '', Val gradient, Txt ''x + '', Val intercept]),
              r2 = round_num H r2 (precision aoptions)\<rparr>
      })"

subsection \<open>exponential\<close>

definition exponentialSums :: "('n::{plus,minus,times,inverse,abs,ord}) host \<Rightarrow> 'n host_logs \<Rightarrow> 'n IApg2DPoint list \<Rightarrow> 'n list" where
  "exponentialSums H L apoints =
     fold (\<lambda>p sum.
             case pt_y p of
               None \<Rightarrow> sum
             | Some y \<Rightarrow>
                 [sum ! 0 + pt_x p,
                  sum ! 1 + y,
                  sum ! 2 + pt_x p * pt_x p * y,
                  sum ! 3 + y * Math_log L y,
                  sum ! 4 + pt_x p * y * Math_log L y,
                  sum ! 5 + pt_x p * y])
          apoints [lit H 0, lit H 0, lit H 0, lit H 0, lit H 0, lit H 0]"

definition exponentialCoeffs :: "('n::{plus,minus,times,inverse,abs,ord}) host \<Rightarrow> 'n host_logs \<Rightarrow> 'n IApg2DPoint list \<Rightarrow> int \<Rightarrow> 'n \<times> 'n" where
  "exponentialCoeffs H L apoints prec =
     (let sum = exponentialSums H L apoints;
          denominator = (sum ! 1 * sum ! 2) - (sum ! 5 * sum ! 5);
          a = Math_exp L (((sum ! 2 * sum ! 3) - (sum ! 5 * sum ! 4)) / denominator);
          b = ((sum ! 1 * sum ! 4) - (sum ! 5 * sum ! 3)) / denominator
      in (round_num H a prec, round_num H b prec))"

definition predictExponentialFn :: "('n::{plus,minus,times,inverse,abs,ord}) host \<Rightarrow> 'n host_logs \<Rightarrow> 'n \<Rightarrow> 'n \<Rightarrow> int \<Rightarrow> 'n \<Rightarrow> 'n IApg2DPoint" where
  "predictExponentialFn H L coeffA coeffB prec x =
     (let newY = coeffA * Math_exp L (coeffB * x)
      in predictedPoint H x newY prec)"

definition exponential ::
  "('n::{plus,minus,times,inverse,abs,ord}) host \<Rightarrow> 'n host_logs \<Rightarrow> 'n IApg2DPoint list \<Rightarrow> IApgRegrOptions \<Rightarrow> 'n IApgRegrResult option" where
  "exponential H L apoints aoptions =
     (let (coeffA, coeffB) = exponentialCoeffs H L apoints (precision aoptions);
          predicted = map (\<lambda>point. predictExponentialFn H L coeffA coeffB (precision aoptions) (pt_x point)) apoints
      in do {
        r2 \<leftarrow> determinationCoefficient H apoints predicted;
        Some \<lparr>points = apoints,
              predicted = predicted,
              rtype = EXPONENTIAL,
              coefficients = [coeffA, coeffB],
              equation = [Txt ''y = '', Val coeffA, Txt ''e^('', Val coeffB, Txt ''x)''],
              r2 = round_num H r2 (precision aoptions)\<rparr>
      })"

subsection \<open>logarithmic\<close>

definition logarithmicSums :: "('n::{plus,minus,times,inverse,abs,ord}) host \<Rightarrow> 'n host_logs \<Rightarrow> 'n IApg2DPoint list \<Rightarrow> 'n list" where
  "logarithmicSums H L apoints =
     fold (\<lambda>p sum.
             case pt_y p of
               None \<Rightarrow> sum
             | Some y \<Rightarrow>
                 [sum ! 0 + Math_log L (pt_x p),
                  sum ! 1 + y * Math_log L (pt_x p),
                  sum ! 2 + y,
                  sum ! 3 + power_op H (Math_log L (pt_x p)) (lit H 2)])
          apoints [lit H 0, lit H 0, lit H 0, lit H 0]"

definition logarithmicCoeffB :: "('n::{plus,minus,times,inverse,abs,ord}) host \<Rightarrow> 'n host_logs \<Rightarrow> 'n IApg2DPoint list \<Rightarrow> int \<Rightarrow> 'n" where
  "logarithmicCoeffB H L apoints prec =
     (let sum = logarithmicSums H L apoints;
          len = lit H (int (length apoints));
          a = ((len * sum ! 1) - (sum ! 2 * sum ! 0)) / ((len * sum ! 3) - (sum ! 0 * sum ! 0))
      in round_num H a prec)"

definition logarithmicCoeffA :: "('n::{plus,minus,times,inverse,abs,ord}) host \<Rightarrow> 'n host_logs \<Rightarrow> 'n IApg2DPoint list \<Rightarrow> 'n \<Rightarrow> int \<Rightarrow> 'n" where
  "logarithmicCoeffA H L apoints coeffB prec =
     (let sum = logarithmicSums H L apoints;
          len = lit H (int (length apoints))
      in round_num H ((sum ! 2 - (coeffB * sum ! 0)) / len) prec)"

definition predictLogaritmicFn :: "('n::{plus,minus,times,inverse,abs,ord}) host \<Rightarrow> 'n host_logs \<Rightarrow> 'n \<Rightarrow> 'n \<Rightarrow> int \<Rightarrow> 'n \<Rightarrow> 'n IApg2DPoint" where
  "predictLogaritmicFn H L coeffA coeffB prec x =
     (let newY = coeffA + (coeffB * Math_log L x)
      in predictedPoint H x newY prec)"

definition logarithmic ::
  "('n::{plus,minus,times,inverse,abs,ord}) host \<Rightarrow> 'n host_logs \<Rightarrow> 'n IApg2DPoint list \<Rightarrow> IApgRegrOptions \<Rightarrow> 'n IApgRegrResult option" where
  "logarithmic H L apoints aoptions =
     (let coeffB = logarithmicCoeffB H L apoints (precision aoptions);
          coeffA = logarithmicCoeffA H L apoints coeffB (precision aoptions);
          predicted = map (\<lambda>point. predictLogaritmicFn H L coeffA coeffB (precision aoptions) (pt_x point)) apoints
      in do {
        r2 \<leftarrow> determinationCoefficient H apoints predicted;
        Some \<lparr>points = apoints,
              predicted = predicted,
              rtype = LOGARITMIC,
              coefficients = [coeffA, coeffB],
              equation = [Txt ''y = '', Val coeffA, Txt '' + '', Val coeffB, Txt '' ln(x)''],
              r2 = round_num H r2 (precision aoptions)\<rparr>
      })"

subsection \<open>power\<close>

definition powerSums :: "('n::{plus,minus,times,inverse,abs,ord}) host \<Rightarrow> 'n host_logs \<Rightarrow> 'n IApg2DPoint list \<Rightarrow> 'n list" where
  "powerSums H L apoints =
     fold (\<lambda>p sum.
             case pt_y p of
               None \<Rightarrow> sum
             | Some y \<Rightarrow>
                 [sum ! 0 + Math_log L (pt_x p),
                  sum ! 1 + Math_log L y * Math_log L (pt_x p),
                  sum ! 2 + Math_log L y,
                  sum ! 3 + power_op H (Math_log L (pt_x p)) (lit H 2),
                  sum ! 4])
          apoints [lit H 0, lit H 0, lit H 0, lit H 0, lit H 0]"

definition powerCoeffs :: "('n::{plus,minus,times,inverse,abs,ord}) host \<Rightarrow> 'n host_logs \<Rightarrow> 'n IApg2DPoint list \<Rightarrow> int \<Rightarrow> 'n \<times> 'n" where
  "powerCoeffs H L apoints prec =
     (let sum = powerSums H L apoints;
          len = lit H (int (length apoints));
          b = ((len * sum ! 1) - (sum ! 0 * sum ! 2)) / ((len * sum ! 3) - power_op H (sum ! 0) (lit H 2));
          a = (sum ! 2 - (b * sum ! 0)) / len
      in (round_num H (Math_exp L a) prec, round_num H b prec))"

definition predictPowerFn :: "('n::{plus,minus,times,inverse,abs,ord}) host \<Rightarrow> 'n \<Rightarrow> 'n \<Rightarrow> int \<Rightarrow> 'n \<Rightarrow> 'n IApg2DPoint" where
  "predictPowerFn H coeffA coeffB prec ax =
     (let newY = coeffA * power_op H ax coeffB
      in predictedPoint H ax newY prec)"

definition power_fit ::
  "('n::{plus,minus,times,inverse,abs,ord}) host \<Rightarrow> 'n host_logs \<Rightarrow> 'n IApg2DPoint list \<Rightarrow> IApgRegrOptions \<Rightarrow> 'n IApgRegrResult option" where
  "power_fit H L apoints aoptions =
     (let (coeffA, coeffB) = powerCoeffs H L apoints (precision aoptions);
          predicted = map (\<lambda>point. predictPowerFn H coeffA coeffB (precision aoptions) (pt_x point)) apoints
      in do {
        r2 \<leftarrow> determinationCoefficient H apoints predicted;
        Some \<lparr>points = apoints,
              predicted = predicted,
              rtype = POWER,
              coefficients = [coeffA, coeffB],
              equation = [Txt ''y = '', Val coeffA, Txt ''x^'', Val coeffB],
              r2 = round_num H r2 (precision aoptions)\<rparr>
      })"

subsection \<open>polynomial\<close>

text \<open>
  The normal equations: \<open>lhs[i]\<close> is the sum of \<open>x\<^sup>i y\<close> and \<open>rhs[i][j]\<close> the sum of
  \<open>x\<^bsup>i+j\<^esup>\<close>, over the points with a y; \<open>lhs\<close> is pushed onto \<open>rhs\<close> as its last
  array. The accumulators \<open>a\<close> and \<open>b\<close> are back at 0 whenever a sum starts. The arrays
  built are new objects: for the solver they are the whole heap, in the order of
  \<open>rhs\<close>.
\<close>

definition polynomialLhs :: "('n::{plus,minus,times,inverse,abs,ord}) host \<Rightarrow> 'n IApg2DPoint list \<Rightarrow> nat \<Rightarrow> 'n list" where
  "polynomialLhs H apoints k =
     map (\<lambda>i. fold (\<lambda>p a. case pt_y p of
                              None \<Rightarrow> a
                            | Some y \<Rightarrow> a + power_op H (pt_x p) (lit H (int i)) * y)
                    apoints (lit H 0))
         [0..<k]"

definition polynomialRhs :: "('n::{plus,minus,times,inverse,abs,ord}) host \<Rightarrow> 'n IApg2DPoint list \<Rightarrow> nat \<Rightarrow> 'n heap" where
  "polynomialRhs H apoints k =
     map (\<lambda>i. map (\<lambda>j. fold (\<lambda>p b. case pt_y p of
                                       None \<Rightarrow> b
                                     | Some y \<Rightarrow> b + power_op H (pt_x p) (lit H (int (i + j))))
                             apoints (lit H 0))
                   [0..<k])
         [0..<k]
     @ [polynomialLhs H apoints k]"

definition polynomialCoefficients :: "('n::{plus,minus,times,inverse,abs,ord}) host \<Rightarrow> 'n IApg2DPoint list \<Rightarrow> IApgRegrOptions \<Rightarrow> 'n list" where
  "polynomialCoefficients H apoints aoptions =
     (let k = order aoptions + 1;
          rhs = polynomialRhs H apoints (nat k)
      in map (\<lambda>v. round_num H v (precision aoptions))
             (snd (gaussianElimination H rhs [0..<length rhs] k)))"

definition polynomialValue :: "('n::{plus,minus,times,inverse,abs,ord}) host \<Rightarrow> 'n list \<Rightarrow> 'n \<Rightarrow> 'n" where
  "polynomialValue H coeffs x =
     foldl (\<lambda>sum (coeff, power). sum + (coeff * power_op H x (lit H (int power)))) (lit H 0)
           (zip coeffs [0..<length coeffs])"

definition predictPolynomialFn :: "('n::{plus,minus,times,inverse,abs,ord}) host \<Rightarrow> 'n list \<Rightarrow> int \<Rightarrow> 'n \<Rightarrow> 'n IApg2DPoint" where
  "predictPolynomialFn H coeffs prec x =
     (let newY = polynomialValue H coeffs x
      in predictedPoint H x newY prec)"

text \<open>What one round of the equation loop appends, for the coefficient of \<open>x\<^sup>i\<close>.\<close>

definition equationTerm :: "'n host \<Rightarrow> 'n \<Rightarrow> nat \<Rightarrow> 'n piece list" where
  "equationTerm H c i =
     (if 1 < i then [Val c, Txt ''x^'', Val (lit H (int i)), Txt '' + '']
      else if i = 1 then [Val c, Txt ''x + '']
      else [Val c])"

definition polynomialEquation :: "'n host \<Rightarrow> 'n list \<Rightarrow> 'n piece list" where
  "polynomialEquation H coeffs =
     fold (\<lambda>i equation. equation @ equationTerm H (coeffs ! i) i)
          (rev [0..<length coeffs]) [Txt ''y = '']"

definition polynomial ::
  "('n::{plus,minus,times,inverse,abs,ord}) host \<Rightarrow> 'n IApg2DPoint list \<Rightarrow> IApgRegrOptions \<Rightarrow> 'n IApgRegrResult option" where
  "polynomial H apoints aoptions =
     (let coeffs = polynomialCoefficients H apoints aoptions;
          predicted = map (\<lambda>apoint. predictPolynomialFn H coeffs (precision aoptions) (pt_x apoint)) apoints;
          equation = polynomialEquation H coeffs
      in do {
        r2 \<leftarrow> determinationCoefficient H apoints predicted;
        Some \<lparr>points = apoints,
              predicted = predicted,
              rtype = POLYNOMIAL,
              coefficients = rev coeffs,
              equation = equation,
              r2 = round_num H r2 (precision aoptions)\<rparr>
      })"

section \<open>Definitions that follow the specification's words\<close>

text \<open>
  The rounding rule as the specification words it: scale by \<open>10\<^sup>p\<close>, round to the
  nearest integer with a tie going away from zero, scale back.
\<close>

definition roundHalfAwaySpec :: "real \<Rightarrow> int \<Rightarrow> real" where
  "roundHalfAwaySpec x p =
     (let scaled = x * 10 powi p
      in sgn scaled * of_int \<lfloor>\<bar>scaled\<bar> + 1 / 2\<rfloor> / 10 powi p)"

text \<open>
  A coefficient array read highest power first: the entry at index \<open>j\<close> of \<open>n\<close>
  multiplies \<open>x\<^bsup>n-1-j\<^esup>\<close>, and the terms are added up from the constant one.
\<close>

definition highToLowValue :: "('n::{plus,minus,times,inverse,abs,ord}) host \<Rightarrow> 'n list \<Rightarrow> 'n \<Rightarrow> 'n" where
  "highToLowValue H stored x =
     foldr (\<lambda>(coeff, power) sum. sum + (coeff * power_op H x (lit H (int power))))
           (zip stored (rev [0..<length stored])) (lit H 0)"

text \<open>
  The points with a y, and the least-squares denominator \<open>n \<Sigma>x\<^sup>2 - (\<Sigma>x)\<^sup>2\<close> over them,
  \<open>n\<close> being their number. In the exact arithmetic it is the denominator of the
  formula; in another arithmetic it is what that arithmetic makes of the formula, the
  sums taken in the order of the points.
\<close>

definition presentPoints :: "'n IApg2DPoint list \<Rightarrow> 'n IApg2DPoint list" where
  "presentPoints apoints = filter (\<lambda>p. pt_y p \<noteq> None) apoints"

definition leastSquaresDenominator :: "('n::{plus,minus,times,inverse,abs,ord}) host \<Rightarrow> 'n IApg2DPoint list \<Rightarrow> 'n" where
  "leastSquaresDenominator H apoints =
     (let ps = presentPoints apoints;
          n = lit H (int (length ps));
          sumX = foldl (+) (lit H 0) (map pt_x ps);
          sumXX = foldl (+) (lit H 0) (map (\<lambda>p. pt_x p * pt_x p) ps)
      in n * sumXX - sumX * sumX)"

text \<open>Points of the exact arithmetic, and points of doubles written as decimal literals.\<close>

definition pt :: "real \<Rightarrow> real \<Rightarrow> num IApg2DPoint" where
  "pt a b = \<lparr>pt_x = Fin a, pt_y = Some (Fin b)\<rparr>"

definition ptNull :: "real \<Rightarrow> num IApg2DPoint" where
  "ptNull a = \<lparr>pt_x = Fin a, pt_y = None\<rparr>"

definition pt64 :: "real \<Rightarrow> real \<Rightarrow> double IApg2DPoint" where
  "pt64 a b = \<lparr>pt_x = dbl a, pt_y = Some (dbl b)\<rparr>"

definition ptNull64 :: "real \<Rightarrow> double IApg2DPoint" where
  "ptNull64 a = \<lparr>pt_x = dbl a, pt_y = None\<rparr>"

text \<open>The real number a double is, and a point of doubles as a point of these numbers.\<close>

fun valueOf :: "double \<Rightarrow> num" where
  "valueOf (Double a) = a"

definition exactPoint :: "double IApg2DPoint \<Rightarrow> num IApg2DPoint" where
  "exactPoint p = \<lparr>pt_x = valueOf (pt_x p), pt_y = map_option valueOf (pt_y p)\<rparr>"

text \<open>
  The 3 by 3 system \<open>x + y + z = 6\<close>, \<open>2y + 5z = -4\<close>, \<open>2x + 5y - z = 27\<close> in the layout
  the solver reads: one array per unknown, holding its coefficient in each equation, and
  the right-hand sides last; and the same arrays once the solver has run.
\<close>

definition system3 :: "num heap" where
  "system3 =
     [[Fin 1, Fin 0, Fin 2],
      [Fin 1, Fin 2, Fin 5],
      [Fin 1, Fin 5, Fin (- 1)],
      [Fin 6, Fin (- 4), Fin 27]]"

definition system3b :: "num heap" where
  "system3b =
     [[Fin 2, Fin 0, Fin 0],
      [Fin 5, Fin 2, Fin 0],
      [Fin (- 1), Fin 5, Fin (21 / 4)],
      [Fin 27, Fin (- 4), Fin (- 21 / 2)]]"

text \<open>
  What a caller reads of a matrix: the arrays its references lead to. The references of
  a matrix are in a heap when they lead to arrays of it, and to different ones.
\<close>

definition contents :: "'n heap \<Rightarrow> matrix \<Rightarrow> 'n list list" where
  "contents h m = map (\<lambda>r. h ! r) m"

definition refsIn :: "matrix \<Rightarrow> 'n heap \<Rightarrow> bool" where
  "refsIn m h \<longleftrightarrow> distinct m \<and> list_all (\<lambda>r. r < length h) m"

text \<open>
  The forward part of the solver as the specification gives it, on a matrix of values
  (an array of arrays held by value, no reference in sight). For the pivot index \<open>i\<close>
  from 0 to \<open>n - 1\<close>: scan the columns \<open>i+1..n-1\<close> within row \<open>i\<close> for the entry of
  largest absolute value (\<open>largestInRow\<close>); swap the columns \<open>i\<close> and \<open>maxrow\<close> across
  all rows \<open>k = i..n\<close> (\<open>swapColumns\<close>); for each row \<open>j\<close> below \<open>i\<close> and each column
  \<open>k\<close> from \<open>n\<close> down to \<open>i\<close>, subtract \<open>matrix[k][i] * matrix[i][j] / matrix[i][i]\<close>
  from \<open>matrix[k][j]\<close> (\<open>eliminateBelow\<close>). What is left is the eliminated matrix.
\<close>

definition largestInRow :: "('n::{plus,minus,times,inverse,abs,ord}) host \<Rightarrow> 'n list list \<Rightarrow> nat \<Rightarrow> nat \<Rightarrow> nat" where
  "largestInRow H M n i =
     fold (\<lambda>j best. if \<bar>item H (M ! i) j\<bar> > \<bar>item H (M ! i) best\<bar> then j else best)
          [i + 1..<n] i"

definition swapInRow :: "'n host \<Rightarrow> nat \<Rightarrow> nat \<Rightarrow> 'n list \<Rightarrow> 'n list" where
  "swapInRow H i p row = assign H (assign H row i (item H row p)) p (item H row i)"

definition swapColumns :: "'n host \<Rightarrow> 'n list list \<Rightarrow> nat \<Rightarrow> nat \<Rightarrow> nat \<Rightarrow> 'n list list" where
  "swapColumns H M n i p = fold (\<lambda>k M. M[k := swapInRow H i p (M ! k)]) [i..<n + 1] M"

definition subtractPivot :: "('n::{plus,minus,times,inverse,abs,ord}) host \<Rightarrow> nat \<Rightarrow> nat \<Rightarrow> nat \<Rightarrow> 'n list list \<Rightarrow> 'n list list" where
  "subtractPivot H i j k M =
     M[k := assign H (M ! k) j
              (item H (M ! k) j - (item H (M ! k) i * item H (M ! i) j) / item H (M ! i) i)]"

definition eliminateBelow :: "('n::{plus,minus,times,inverse,abs,ord}) host \<Rightarrow> 'n list list \<Rightarrow> nat \<Rightarrow> nat \<Rightarrow> 'n list list" where
  "eliminateBelow H M n i =
     fold (\<lambda>j M. fold (subtractPivot H i j) (rev [i..<n + 1]) M) [i + 1..<n] M"

definition pivotRound :: "('n::{plus,minus,times,inverse,abs,ord}) host \<Rightarrow> nat \<Rightarrow> nat \<Rightarrow> 'n list list \<Rightarrow> 'n list list" where
  "pivotRound H n i M = eliminateBelow H (swapColumns H M n i (largestInRow H M n i)) n i"

definition eliminatedMatrix :: "('n::{plus,minus,times,inverse,abs,ord}) host \<Rightarrow> 'n list list \<Rightarrow> 'n list list" where
  "eliminatedMatrix H M = fold (pivotRound H (length M - 1)) [0..<length M - 1] M"

text \<open>
  A heap of a caller: the four arrays of the system above among two arrays of its own,
  and the matrix as the caller holds it, by reference.
\<close>

definition callerHeap :: "num heap" where
  "callerHeap =
     [[Fin 6, Fin (- 4), Fin 27],
      [Fin 7],
      [Fin 1, Fin 2, Fin 5],
      [Fin 1, Fin 0, Fin 2],
      [Fin 8, Fin 9],
      [Fin 1, Fin 5, Fin (- 1)]]"

definition callerMatrix :: matrix where
  "callerMatrix = [3, 2, 5, 0]"

text \<open>A system of two equations, in doubles, with the right-hand sides last.\<close>

definition tenthSystem :: "double list list" where
  "tenthSystem = [[dbl 3, dbl 0.1], [dbl 1, dbl 2], [dbl 1, dbl 1]]"

text \<open>Inputs on which the fits are run below.\<close>

definition tenths :: "double IApg2DPoint list" where
  "tenths = [pt64 0.1 1, pt64 0.1 2, pt64 0.1 3, pt64 0.1 4, pt64 0.1 5, pt64 0.1 6]"

definition halves :: "num IApg2DPoint list" where
  "halves = [pt 0 0, pt 10 5, pt 20 10]"

definition doubling :: "num IApg2DPoint list" where
  "doubling = [pt 0 1, pt 2 2, pt 4 4]"

definition quarters :: "num IApg2DPoint list" where
  "quarters = [pt 1 (- 1 / 4), pt 16 (7 / 4)]"

definition eighths :: "num IApg2DPoint list" where
  "eighths = [pt 1 1, pt 16 8]"

section \<open>The two arithmetics\<close>

lemmas b64 = dbl_def round64_def binade_def roundHalfEven_def Let_def minus_num_def

lemma binary64_sel:
  "lit binary64 i = dbl (of_int i)" "undef binary64 = Double NaN" "strict_eq binary64 = strictEq64"
  "Math_round binary64 = mathRound64" "power_op binary64 = pow64"
  by (simp_all add: binary64_def)

lemma exact_sel:
  "lit exact = ofInt" "undef exact = NaN" "strict_eq exact = strictEq"
  "Math_round exact = mathRound" "power_op exact = pow"
  by (simp_all add: exact_def)

lemma exact_logs_sel: "Math_log exact_logs = mathLog" "Math_exp exact_logs = mathExp"
  by (simp_all add: exact_logs_def)

section \<open>Rounding\<close>

text \<open>In the exact arithmetic the rounding utility is the decimal rounding, a tie going up.\<close>

lemma pow_ten: "pow (ofInt 10) (ofInt p) = Fin (10 powi p)"
  by (simp add: ofInt_def isIntegral_def)

lemma round_num_Fin:
  "round_num exact (Fin x) p = Fin (of_int \<lfloor>x * 10 powi p + 1 / 2\<rfloor> / 10 powi p)"
  by (simp add: round_num_def exact_sel pow_ten)

text \<open>
  C4, as the specification states it: the rounding utility scales by \<open>10\<^sup>p\<close>, rounds to
  the nearest integer with ties going away from zero, and scales back. This fails at
  \<open>round(-2.5, 0)\<close>, where every value on the way is a double and both arithmetics
  agree: \<open>Math.round\<close> sends the tie \<open>-2.5\<close> to \<open>-2\<close>, away from zero it would be
  \<open>-3\<close>.
\<close>

theorem round_half_away_counterexample:
  "round_num exact (Fin (- 2.5)) 0 = Fin (- 2)
   \<and> round_num binary64 (dbl (- 2.5)) 0 = dbl (- 2)
   \<and> roundHalfAwaySpec (- 2.5) 0 = - 3
   \<and> round_num exact (Fin (- 2.5)) 0 \<noteq> Fin (roundHalfAwaySpec (- 2.5) 0)"
proof -
  have "round_num binary64 (dbl (- 2.5)) 0 = dbl (- 2)"
    by (simp add: round_num_def binary64_sel b64 isIntegral_def)
  then show ?thesis
    by (simp add: round_num_Fin roundHalfAwaySpec_def)
qed

text \<open>In doubles: the two examples of the specification, and \<open>round(1.45, 1)\<close>.\<close>

lemma round_num_1_2345: "round_num binary64 (dbl 1.2345) 2 = dbl 1.23"
  by (simp add: round_num_def binary64_sel b64 isIntegral_def)

lemma round_num_12345: "round_num binary64 (dbl 12345) (- 2) = dbl 12300"
  by (simp add: round_num_def binary64_sel b64 isIntegral_def)

lemma round_num_1_45: "round_num binary64 (dbl 1.45) 1 = dbl 1.5"
  by (simp add: round_num_def binary64_sel b64 isIntegral_def)

text \<open>
  The double \<open>1.45\<close> is below the decimal 1.45, and scaled by 10 without rounding it
  rounds down, to 1.4; the product taken in doubles is 14.5, a tie, and rounds up. So at
  a precision other than 0 the result need not be the decimal rounding of the input.
\<close>

lemma dbl_1_45: "dbl 1.45 = Double (Fin (6530219459687219 / 2 ^ 52))"
  by (simp add: b64)

lemma round_num_1_45_exact: "round_num exact (Fin (6530219459687219 / 2 ^ 52)) 1 = Fin 1.4"
  by (simp add: round_num_Fin)

lemma round_num_1_005: "round_num binary64 (dbl 1.005) 2 = dbl 1"
  by (simp add: round_num_def binary64_sel b64 isIntegral_def)

text \<open>Where the scaled number or the factor overflows, the result is no rounding of the input at all.\<close>

lemma round_num_overflow: "round_num binary64 (dbl (10 ^ 308)) 3 = Double PInf"
  by (simp add: round_num_def binary64_sel b64 isIntegral_def)

lemma round_num_nan: "round_num binary64 (dbl 1) 400 = Double NaN"
  by (simp add: round_num_def binary64_sel b64 isIntegral_def)

text \<open>
  A finite double is a real that the rounding to doubles leaves as it is. The exponent
  the rounding finds is right (\<open>binade_lower\<close>, \<open>binade_upper\<close>), so every integer up
  to \<open>2\<^sup>5\<^sup>3\<close> is a double and every double from \<open>2\<^sup>5\<^sup>2\<close> on is an integer. At precision
  0 the factor is 1, and then no operation of the rounding utility rounds: on every
  finite double it returns \<open>\<lfloor>x + 1/2\<rfloor>\<close> in doubles as in the exact arithmetic.
\<close>

lemma binade_fold_lower:
  "e = - 1023 \<or> 2 powi e \<le> \<bar>x\<bar> \<Longrightarrow>
   fold (\<lambda>s e. if 2 powi (e + s) \<le> \<bar>x\<bar> then e + s else e) ss e = - 1023
   \<or> 2 powi (fold (\<lambda>s e. if 2 powi (e + s) \<le> \<bar>x\<bar> then e + s else e) ss e) \<le> \<bar>x :: real\<bar>"
  by (induction ss arbitrary: e) auto

lemma binade_lower: "binade x = - 1023 \<or> 2 powi (binade x) \<le> \<bar>x\<bar>"
  unfolding binade_def by (rule binade_fold_lower) simp

lemma binade_fold_upper:
  assumes "\<forall>i < length ss. ss ! i \<le> sum_list (drop (Suc i) ss) + 1"
    and "\<bar>x :: real\<bar> < 2 powi (e + sum_list ss + 1)"
  shows "\<bar>x\<bar> < 2 powi (fold (\<lambda>s e. if 2 powi (e + s) \<le> \<bar>x\<bar> then e + s else e) ss e + 1)"
  using assms
proof (induction ss arbitrary: e)
  case Nil
  then show ?case by simp
next
  case (Cons s rest)
  have rest: "\<forall>i < length rest. rest ! i \<le> sum_list (drop (Suc i) rest) + 1"
    using Cons.prems(1) by fastforce
  have s: "s \<le> sum_list rest + 1"
    using Cons.prems(1) by fastforce
  show ?case
  proof (cases "2 powi (e + s) \<le> \<bar>x\<bar>")
    case True
    have "\<bar>x\<bar> < 2 powi (e + s + sum_list rest + 1)"
      using Cons.prems(2) by (simp add: add.assoc)
    from Cons.IH [OF rest this] True show ?thesis by simp
  next
    case False
    then have "\<bar>x\<bar> < 2 powi (e + s)" by simp
    also have "\<dots> \<le> 2 powi (e + sum_list rest + 1)"
      using s by (intro power_int_increasing) simp_all
    finally have "\<bar>x\<bar> < 2 powi (e + sum_list rest + 1)" .
    from Cons.IH [OF rest this] False show ?thesis by simp
  qed
qed

lemma binade_upper:
  assumes "\<bar>x\<bar> < 2 powi 1025"
  shows "\<bar>x\<bar> < 2 powi (binade x + 1)"
  unfolding binade_def
proof (rule binade_fold_upper)
  show "\<forall>i < length [1024, 512, 256, 128, 64, 32, 16, 8, 4, 2, 1 :: int].
          [1024, 512, 256, 128, 64, 32, 16, 8, 4, 2, 1 :: int] ! i
            \<le> sum_list (drop (Suc i) [1024, 512, 256, 128, 64, 32, 16, 8, 4, 2, 1 :: int]) + 1"
    by (simp add: All_less_Suc2 numeral_eq_Suc)
  show "\<bar>x\<bar> < 2 powi (- 1023 + sum_list [1024, 512, 256, 128, 64, 32, 16, 8, 4, 2, 1] + 1)"
    using assms by simp
qed

lemma roundHalfEven_of_int: "roundHalfEven (of_int n) = n"
  by (simp add: roundHalfEven_def)

lemma round64_of_int:
  assumes "\<bar>k\<bar> \<le> 2 ^ 53"
  shows "round64 (of_int k) = Fin (of_int k)"
proof (cases "k = 0")
  case True
  then show ?thesis by (simp add: round64_def)
next
  case False
  define e where "e = max (binade (of_int k)) (- 1022)"
  have k: "\<bar>of_int k :: real\<bar> \<le> 2 powi 53"
  proof -
    have "(of_int \<bar>k\<bar> :: real) \<le> of_int (2 ^ 53)"
      using assms by (simp only: of_int_le_iff)
    then show ?thesis by simp
  qed
  have e: "e \<le> 53"
  proof (cases "binade (of_int k) = - 1023")
    case True
    then show ?thesis by (simp add: e_def)
  next
    case False
    then have "2 powi (binade (of_int k)) \<le> \<bar>of_int k :: real\<bar>"
      using binade_lower [of "of_int k"] by simp
    then have "(2::real) powi (binade (of_int k)) \<le> 2 powi 53" using k by simp
    then have "binade (of_int k) \<le> 53"
      by (rule power_int_le_imp_le_exp [rotated]) simp_all
    then show ?thesis by (simp add: e_def)
  qed
  have "\<exists>n. (of_int k :: real) / 2 powi (e - 52) = of_int n"
  proof (cases "e \<le> 52")
    case True
    then have "(2::real) powi (e - 52) = 1 / 2 ^ nat (52 - e)"
      by (simp add: power_int_def field_simps nat_diff_distrib)
    then have "(of_int k :: real) / 2 powi (e - 52) = of_int (k * 2 ^ nat (52 - e))" by simp
    then show ?thesis by blast
  next
    case False
    then have e53: "e = 53" using e by simp
    then have "binade (of_int k) = 53" by (simp add: e_def max_def split: if_splits)
    then have "2 powi 53 \<le> \<bar>of_int k :: real\<bar>"
      using binade_lower [of "of_int k"] by simp
    then have "\<bar>of_int k :: real\<bar> = 2 ^ 53" using k by simp
    then have "(of_int \<bar>k\<bar> :: real) = of_int (2 ^ 53)" by simp
    then have "\<bar>k\<bar> = 2 ^ 53" by (simp only: of_int_eq_iff)
    then have "k = 2 ^ 53 \<or> k = - (2 ^ 53)" by linarith
    then have "(of_int k :: real) / 2 powi (e - 52) = of_int (k div 2)"
      unfolding e53 by auto
    then show ?thesis by blast
  qed
  then obtain n where n: "(of_int k :: real) / 2 powi (e - 52) = of_int n" by blast
  then have y: "of_int n * 2 powi (e - 52) = (of_int k :: real)"
    by (simp add: field_simps)
  have "\<bar>of_int k :: real\<bar> < 2 powi 1024"
    using k by (rule order_le_less_trans) simp
  then show ?thesis
    using False by (simp add: round64_def Let_def e_def [symmetric] n roundHalfEven_of_int y)
qed

lemma double_large_integral:
  assumes "round64 x = Fin x" "2 ^ 52 \<le> \<bar>x\<bar>"
  shows "\<exists>n. x = of_int n"
proof -
  define e where "e = max (binade x) (- 1022)"
  define m where "m = roundHalfEven (x / 2 powi (e - 52))"
  have x0: "x \<noteq> 0" using assms(2) by auto
  have r: "round64 x = (if 2 powi 1024 \<le> \<bar>of_int m * 2 powi (e - 52) :: real\<bar>
                        then (if 0 < x then PInf else NInf) else Fin (of_int m * 2 powi (e - 52)))"
    using x0 by (simp add: round64_def Let_def e_def m_def)
  have small: "\<not> 2 powi 1024 \<le> \<bar>of_int m * 2 powi (e - 52) :: real\<bar>"
    using assms(1) r by (auto split: if_splits)
  then have x: "x = of_int m * 2 powi (e - 52)"
    using assms(1) r by simp
  have "\<bar>x\<bar> < 2 powi 1024" using small x by simp
  also have "\<dots> \<le> (2::real) powi 1025" by (intro power_int_increasing) simp_all
  finally have "\<bar>x\<bar> < 2 powi (binade x + 1)" by (rule binade_upper)
  then have "(2::real) powi 52 < 2 powi (binade x + 1)"
    using assms(2) by simp
  have "52 \<le> binade x"
  proof (rule ccontr)
    assume "\<not> 52 \<le> binade x"
    then have "binade x + 1 \<le> 52" by simp
    then have "(2::real) powi (binade x + 1) \<le> 2 powi 52"
      by (intro power_int_increasing) simp_all
    with \<open>(2::real) powi 52 < 2 powi (binade x + 1)\<close> show False by simp
  qed
  then have "52 \<le> e" by (simp add: e_def)
  then have "(2::real) powi (e - 52) = of_int (2 ^ nat (e - 52))"
    by (simp add: power_int_def)
  then have "x = of_int (m * 2 ^ nat (e - 52))" using x by simp
  then show ?thesis by blast
qed

lemma factor_precision0: "power_op binary64 (lit binary64 10) (lit binary64 0) = Double (Fin 1)"
  by (simp add: binary64_sel b64 isIntegral_def)

lemma round_num_binary64_precision0:
  assumes "round64 x = Fin x"
  shows "round_num binary64 (Double (Fin x)) 0 = Double (Fin (of_int \<lfloor>x + 1 / 2\<rfloor>))"
proof -
  have "round64 (of_int \<lfloor>x + 1 / 2\<rfloor>) = Fin (of_int \<lfloor>x + 1 / 2\<rfloor>)"
  proof (cases "\<bar>x\<bar> < 2 ^ 52")
    case True
    then have "- (2 ^ 52) \<le> \<lfloor>x + 1 / 2\<rfloor>" "\<lfloor>x + 1 / 2\<rfloor> \<le> 2 ^ 52"
      by (simp_all add: le_floor_iff floor_le_iff)
    moreover have "(2::int) ^ 52 \<le> 2 ^ 53" by simp
    ultimately have "\<lfloor>x + 1 / 2\<rfloor> \<le> 2 ^ 53 \<and> - \<lfloor>x + 1 / 2\<rfloor> \<le> 2 ^ 53" by linarith
    then have "\<bar>\<lfloor>x + 1 / 2\<rfloor>\<bar> \<le> 2 ^ 53" by (simp only: abs_le_iff)
    then show ?thesis by (rule round64_of_int)
  next
    case False
    then obtain n where n: "x = of_int n"
      using double_large_integral [OF assms] by auto
    have "\<lfloor>x + 1 / 2\<rfloor> = n" unfolding n by (simp add: floor_eq_iff)
    then show ?thesis using assms n by simp
  qed
  then show ?thesis
    using assms unfolding round_num_def factor_precision0 Let_def
    by (simp add: binary64_sel)
qed

text \<open>
  C4, amended: at precision 0 the rounding utility returns, for every finite double
  \<open>x\<close>, the nearest integer with a tie going up (towards +Infinity), which is
  \<open>\<lfloor>x + 1/2\<rfloor>\<close>, in doubles and in the exact arithmetic. At another precision \<open>p\<close> it
  returns \<open>Math.round(x * 10\<^sup>p) / 10\<^sup>p\<close> with the product and the quotient rounded as
  doubles, the tie rule applying to the rounded product: \<open>round(1.2345, 2) = 1.23\<close> and
  \<open>round(12345, -2) = 12300\<close>, and \<open>round(1.45, 1) = 1.5\<close>.
\<close>

theorem round_num_half_up:
  "(round64 x = Fin x \<longrightarrow>
      round_num binary64 (Double (Fin x)) 0 = Double (Fin (of_int \<lfloor>x + 1 / 2\<rfloor>)))
   \<and> round_num exact (Fin x) 0 = Fin (of_int \<lfloor>x + 1 / 2\<rfloor>)
   \<and> round_num binary64 (dbl 1.2345) 2 = dbl 1.23
   \<and> round_num binary64 (dbl 12345) (- 2) = dbl 12300
   \<and> round_num binary64 (dbl 1.45) 1 = dbl 1.5"
  using round_num_1_2345 round_num_12345 round_num_1_45 round_num_binary64_precision0 [of x]
  by (simp add: round_num_Fin)

theorem round_num_half_up_witness:
  "round64 (- 2.5) = Fin (- 2.5)
   \<and> round_num binary64 (Double (Fin (- 2.5))) 0 = Double (Fin (- 2))"
proof -
  have r: "round64 (- 2.5) = Fin (- 2.5)" by (simp add: b64)
  from round_num_half_up [of "- 2.5"] r show ?thesis by simp
qed

section \<open>The solver on a known system\<close>

lemma gaussianElimination_system3:
  "gaussianElimination exact system3 [0, 1, 2, 3] 3 = (system3b, [Fin 5, Fin 3, Fin (- 2)])"
  by code_simp

text \<open>
  C6: on the augmented matrix of \<open>x + y + z = 6\<close>, \<open>2y + 5z = -4\<close>, \<open>2x + 5y - z = 27\<close>,
  laid out as the source reads it, \<open>gaussianElimination\<close> returns the solution
  \<open>[5, 3, -2]\<close>, in the order of the unknowns. Every intermediate value is a multiple of
  a quarter and small, so it is a double, and the doubles compute what the exact
  arithmetic does.
\<close>

theorem gaussianElimination_solves_system3:
  "snd (gaussianElimination exact system3 [0, 1, 2, 3] 3) = [Fin 5, Fin 3, Fin (- 2)]"
  by (simp only: gaussianElimination_system3 snd_conv)

section \<open>Polynomial of order 1 against the linear fit\<close>

text \<open>
  C5: the polynomial fit with order 1 and precision 3 on the points (0,0), (1,1), (2,2)
  returns the coefficients \<open>[1, 0]\<close>, slope then intercept, which are the coefficients
  the linear fit returns on the same points, and an \<open>r2\<close> of 1. Every intermediate
  value is a small integer.
\<close>

theorem polynomial_order1_is_linear:
  "polynomial exact [pt 0 0, pt 1 1, pt 2 2] \<lparr>order = 1, precision = 3\<rparr> =
     Some \<lparr>points = [pt 0 0, pt 1 1, pt 2 2],
           predicted = [pt 0 0, pt 1 1, pt 2 2],
           rtype = POLYNOMIAL,
           coefficients = [Fin 1, Fin 0],
           equation = [Txt ''y = '', Val (Fin 1), Txt ''x + '', Val (Fin 0)],
           r2 = Fin 1\<rparr>
   \<and> linear_fit exact [pt 0 0, pt 1 1, pt 2 2] \<lparr>order = 1, precision = 3\<rparr> =
     Some \<lparr>points = [pt 0 0, pt 1 1, pt 2 2],
           predicted = [pt 0 0, pt 1 1, pt 2 2],
           rtype = LINEAR,
           coefficients = [Fin 1, Fin 0],
           equation = [Txt ''y = '', Val (Fin 1), Txt ''x''],
           r2 = Fin 1\<rparr>"
  by code_simp

section \<open>The fits always return\<close>

text \<open>
  \<open>determinationCoefficient\<close> throws only when \<open>results\<close> is shorter than the points
  with a y reach. Every fit passes it one prediction per point, so no fit throws, in
  any arithmetic.
\<close>

lemma observed_defined:
  "length apoints \<le> length results \<Longrightarrow> None \<notin> snd ` set (observed apoints results)"
proof (induction apoints arbitrary: results)
  case Nil
  then show ?case by simp
next
  case (Cons point rest)
  then obtain r rs where rs: "results = r # rs" by (cases results) auto
  with Cons.prems have "length rest \<le> length rs" by simp
  from Cons.IH [OF this] show ?case by (auto simp: rs)
qed

lemma determinationCoefficient_Some:
  assumes "length apoints \<le> length results"
  shows "\<exists>v. determinationCoefficient H apoints results = Some v"
  using observed_defined [OF assms] by (simp add: determinationCoefficient_def Let_def)

lemma the_determinationCoefficient:
  assumes "length apoints \<le> length results"
  shows "determinationCoefficient H apoints results = Some (the (determinationCoefficient H apoints results))"
  using determinationCoefficient_Some [OF assms] by auto

lemma linear_fit_Some:
  "linear_fit H apoints aoptions =
     (let gradient = linearGradient H apoints (precision aoptions);
          intercept = linearIntercept H apoints gradient (precision aoptions);
          predicted = map (\<lambda>point. predictLinearFn H gradient intercept (precision aoptions) (pt_x point)) apoints
      in Some \<lparr>points = apoints,
              predicted = predicted,
              rtype = LINEAR,
              coefficients = [gradient, intercept],
              equation =
                (if strict_eq H intercept (lit H 0)
                 then [Txt ''y = '', Val gradient, Txt ''x'']
                 else [Txt ''y = '', Val gradient, Txt ''x + '', Val intercept]),
              r2 = round_num H (the (determinationCoefficient H apoints predicted)) (precision aoptions)\<rparr>)"
  unfolding linear_fit_def Let_def
  by (subst the_determinationCoefficient) simp_all

lemma exponential_Some:
  "exponential H L apoints aoptions =
     (let (coeffA, coeffB) = exponentialCoeffs H L apoints (precision aoptions);
          predicted = map (\<lambda>point. predictExponentialFn H L coeffA coeffB (precision aoptions) (pt_x point)) apoints
      in Some \<lparr>points = apoints,
              predicted = predicted,
              rtype = EXPONENTIAL,
              coefficients = [coeffA, coeffB],
              equation = [Txt ''y = '', Val coeffA, Txt ''e^('', Val coeffB, Txt ''x)''],
              r2 = round_num H (the (determinationCoefficient H apoints predicted)) (precision aoptions)\<rparr>)"
  unfolding exponential_def Let_def case_prod_unfold
  by (subst the_determinationCoefficient) simp_all

lemma logarithmic_Some:
  "logarithmic H L apoints aoptions =
     (let coeffB = logarithmicCoeffB H L apoints (precision aoptions);
          coeffA = logarithmicCoeffA H L apoints coeffB (precision aoptions);
          predicted = map (\<lambda>point. predictLogaritmicFn H L coeffA coeffB (precision aoptions) (pt_x point)) apoints
      in Some \<lparr>points = apoints,
              predicted = predicted,
              rtype = LOGARITMIC,
              coefficients = [coeffA, coeffB],
              equation = [Txt ''y = '', Val coeffA, Txt '' + '', Val coeffB, Txt '' ln(x)''],
              r2 = round_num H (the (determinationCoefficient H apoints predicted)) (precision aoptions)\<rparr>)"
  unfolding logarithmic_def Let_def
  by (subst the_determinationCoefficient) simp_all

lemma power_fit_Some:
  "power_fit H L apoints aoptions =
     (let (coeffA, coeffB) = powerCoeffs H L apoints (precision aoptions);
          predicted = map (\<lambda>point. predictPowerFn H coeffA coeffB (precision aoptions) (pt_x point)) apoints
      in Some \<lparr>points = apoints,
              predicted = predicted,
              rtype = POWER,
              coefficients = [coeffA, coeffB],
              equation = [Txt ''y = '', Val coeffA, Txt ''x^'', Val coeffB],
              r2 = round_num H (the (determinationCoefficient H apoints predicted)) (precision aoptions)\<rparr>)"
  unfolding power_fit_def Let_def case_prod_unfold
  by (subst the_determinationCoefficient) simp_all

lemma polynomial_Some:
  "polynomial H apoints aoptions =
     (let coeffs = polynomialCoefficients H apoints aoptions;
          predicted = map (\<lambda>apoint. predictPolynomialFn H coeffs (precision aoptions) (pt_x apoint)) apoints
      in Some \<lparr>points = apoints,
           predicted = predicted,
           rtype = POLYNOMIAL,
           coefficients = rev coeffs,
           equation = polynomialEquation H coeffs,
           r2 = round_num H (the (determinationCoefficient H apoints predicted)) (precision aoptions)\<rparr>)"
  unfolding polynomial_def Let_def
  by (subst the_determinationCoefficient) simp_all

section \<open>How the polynomial fit stores its coefficients\<close>

lemma fold_append_concat:
  "fold (\<lambda>i acc. acc @ g i) xs acc0 = acc0 @ concat (map g xs)"
  by (induction xs arbitrary: acc0) simp_all

lemma polynomialEquation_stored:
  "polynomialEquation H (rev stored) =
     Txt ''y = '' # concat (map (\<lambda>j. equationTerm H (stored ! j) (length stored - 1 - j)) [0..<length stored])"
proof -
  have "map (\<lambda>i. equationTerm H (rev stored ! i) i) (rev [0..<length stored])
        = map (\<lambda>j. equationTerm H (stored ! j) (length stored - 1 - j)) [0..<length stored]"
    by (rule nth_equalityI) (simp_all add: rev_nth)
  then show ?thesis
    by (simp add: polynomialEquation_def fold_append_concat)
qed

lemma polynomialValue_stored:
  "polynomialValue H (rev stored) x = highToLowValue H stored x"
proof -
  have "zip (rev stored) [0..<length stored] = rev (zip stored (rev [0..<length stored]))"
    by (simp add: zip_rev [symmetric])
  then show ?thesis
    by (simp add: polynomialValue_def highToLowValue_def foldl_conv_foldr case_prod_unfold)
qed

text \<open>
  C1, as the specification states it: the coefficient array in the result of the
  polynomial fit holds the constant coefficient at index 0 and the highest power last.
  This fails on the points (0,1), (1,3), (2,5) with order 1: the fitted line is
  \<open>y = 2x + 1\<close>, as the predictions and the equation show, and the stored array is
  \<open>[2, 1]\<close>, the slope at index 0. Read lowest power first, \<open>[2, 1]\<close> would give 2 at
  \<open>x = 0\<close>, where the fit predicts 1.
\<close>

theorem polynomial_storage_counterexample:
  "polynomial exact [pt 0 1, pt 1 3, pt 2 5] \<lparr>order = 1, precision = 3\<rparr> =
     Some \<lparr>points = [pt 0 1, pt 1 3, pt 2 5],
           predicted = [pt 0 1, pt 1 3, pt 2 5],
           rtype = POLYNOMIAL,
           coefficients = [Fin 2, Fin 1],
           equation = [Txt ''y = '', Val (Fin 2), Txt ''x + '', Val (Fin 1)],
           r2 = Fin 1\<rparr>
   \<and> polynomialValue exact [Fin 2, Fin 1] (Fin 0) = Fin 2"
  by code_simp

text \<open>
  C1, amended: for every point list and options, the coefficient array stored in the
  result of the polynomial fit is the reverse of the solver's rounded output, and it is
  ordered highest power first: the entry at index \<open>j\<close> of \<open>n\<close> is the coefficient of
  \<open>x\<^bsup>n-1-j\<^esup>\<close> in every prediction, so index 0 holds the highest power and the last
  index the constant. The equation lists the stored entries in this same order, highest
  power first.
\<close>

theorem polynomial_stores_high_to_low:
  "\<exists>r. polynomial H apoints aoptions = Some r
     \<and> coefficients r = rev (polynomialCoefficients H apoints aoptions)
     \<and> predicted r =
         map (\<lambda>p. predictedPoint H (pt_x p) (highToLowValue H (coefficients r) (pt_x p)) (precision aoptions))
             apoints
     \<and> equation r =
         Txt ''y = '' #
         concat (map (\<lambda>j. equationTerm H (coefficients r ! j) (length (coefficients r) - 1 - j))
                     [0..<length (coefficients r)])"
  using polynomialEquation_stored [of H "rev (polynomialCoefficients H apoints aoptions)"]
  by (simp add: polynomial_Some Let_def predictPolynomialFn_def polynomialValue_stored [symmetric])

section \<open>Coefficient of determination on fewer than two observations\<close>

text \<open>
  C2: with fewer than two points with a y, \<open>determinationCoefficient\<close> is to return
  NaN, as its own description in the source has it (the \<open>r^2\<close> value, or NaN if one
  cannot be calculated). The code does not on one observation whose prediction differs
  from it: for the point (0,1) predicted as (0,2) the squared deviation from the mean is
  0 and the squared residual is 1, so the quotient is Infinity and the result -Infinity.
\<close>

theorem determinationCoefficient_one_point:
  "determinationCoefficient exact [pt 0 1] [pt 0 2] = Some NInf"
  by code_simp

text \<open>
  What the code does return on fewer than two observations, for one prediction per
  point, when no operation rounds: NaN or -Infinity, and nothing else.
\<close>

lemma observed_fst: "map fst (observed apoints results) = presentPoints apoints"
  by (induction apoints arbitrary: results) (auto simp: presentPoints_def)

lemma one_observation:
  "Fin 1 - (Fin 0 + (v - w) * (v - w)) / (Fin 0 + (v - (Fin 0 + v) / Fin 1) * (v - (Fin 0 + v) / Fin 1))
     \<in> {NaN, NInf}"
  by (cases v; cases w) (simp_all add: minus_num_def)

lemma determinationCoefficient_few_points:
  assumes "length apoints \<le> length results" "length (presentPoints apoints) < 2"
  shows "determinationCoefficient exact apoints results \<in> {Some NaN, Some NInf}"
proof -
  have d: "None \<notin> snd ` set (observed apoints results)"
    using observed_defined [OF assms(1)] .
  have "length (observed apoints results) < 2"
    using assms(2) observed_fst [of apoints results] by (metis length_map)
  then consider "observed apoints results = []"
    | p q where "observed apoints results = [(p, q)]"
    by (cases "observed apoints results"; cases "tl (observed apoints results)") auto
  then show ?thesis
  proof cases
    case 1
    then show ?thesis by (simp add: determinationCoefficient_def minus_num_def exact_sel ofInt_def)
  next
    case 2
    with d obtain q' where q: "q = Some q'" by (cases q) auto
    show ?thesis
      using one_observation [of "yValue exact p" "yValue exact q'"]
      by (simp add: determinationCoefficient_def 2 q exact_sel ofInt_def Let_def yValue_def)
  qed
qed

section \<open>The linear fit on a vanishing denominator\<close>

text \<open>
  The run of the linear fit is the least-squares denominator as the arithmetic of the
  host computes it, from sums over the points with a y.
\<close>

lemma linearSums_from:
  "fold (\<lambda>p (len, sum).
             case pt_y p of
               None \<Rightarrow> (len, sum)
             | Some y \<Rightarrow>
                 (len + 1,
                  [sum ! 0 + pt_x p,
                   sum ! 1 + y,
                   sum ! 2 + pt_x p * pt_x p,
                   sum ! 3 + pt_x p * y,
                   sum ! 4 + y * y]))
          apoints (len0, [s0, s1, s2, s3, s4])
   = (len0 + length (presentPoints apoints),
      [foldl (+) s0 (map pt_x (presentPoints apoints)),
       foldl (+) s1 (map (yValue H) (presentPoints apoints)),
       foldl (+) s2 (map (\<lambda>p. pt_x p * pt_x p) (presentPoints apoints)),
       foldl (+) s3 (map (\<lambda>p. pt_x p * yValue H p) (presentPoints apoints)),
       foldl (+) s4 (map (\<lambda>p. yValue H p * yValue H p) (presentPoints apoints))])"
proof (induction apoints arbitrary: len0 s0 s1 s2 s3 s4)
  case Nil
  then show ?case by (simp add: presentPoints_def)
next
  case (Cons p rest)
  show ?case
  proof (cases "pt_y p")
    case None
    then show ?thesis using Cons.IH by (simp add: presentPoints_def)
  next
    case (Some y)
    then show ?thesis
      using Cons.IH [of "len0 + 1" "s0 + pt_x p" "s1 + y" "s2 + pt_x p * pt_x p" "s3 + pt_x p * y" "s4 + y * y"]
      by (simp add: presentPoints_def yValue_def)
  qed
qed

lemma linearSums_present:
  "linearSums H apoints
   = (length (presentPoints apoints),
      [foldl (+) (lit H 0) (map pt_x (presentPoints apoints)),
       foldl (+) (lit H 0) (map (yValue H) (presentPoints apoints)),
       foldl (+) (lit H 0) (map (\<lambda>p. pt_x p * pt_x p) (presentPoints apoints)),
       foldl (+) (lit H 0) (map (\<lambda>p. pt_x p * yValue H p) (presentPoints apoints)),
       foldl (+) (lit H 0) (map (\<lambda>p. yValue H p * yValue H p) (presentPoints apoints))])"
  unfolding linearSums_def by (simp add: linearSums_from [where H = H])

lemma linearRun_denominator: "linearRun H apoints = leastSquaresDenominator H apoints"
  by (simp add: linearRun_def leastSquaresDenominator_def linearSums_present Let_def)

text \<open>
  Six points at \<open>x = 0.1\<close> with the y from 1 to 6, in doubles. All x are the same
  double, so the denominator of these numbers is 0. The fit adds the x and their squares
  up in doubles, and the sums are rounded: its run is \<open>2\<^bsup>-53\<^esup>\<close> and its rise
  \<open>2\<^bsup>-49\<^esup>\<close>.
\<close>

lemma tenths_exact: "leastSquaresDenominator exact (map exactPoint tenths) = Fin 0"
  by (simp add: tenths_def pt64_def exactPoint_def b64 leastSquaresDenominator_def presentPoints_def
        exact_sel ofInt_def minus_num_def)

lemma tenths_sums:
  "linearSums binary64 tenths = (6, [dbl 0.6, dbl 21, dbl 0.06000000000000001, dbl 2.1, dbl 91])"
  by (simp add: tenths_def linearSums_def pt64_def binary64_sel b64)

lemma tenths_run: "linearRun binary64 tenths = Double (Fin (1 / 2 ^ 53))"
  by (simp add: linearRun_def tenths_sums binary64_sel b64)

lemma tenths_rise: "linearRise binary64 tenths = Double (Fin (1 / 2 ^ 49))"
  by (simp add: linearRise_def tenths_sums binary64_sel b64)

lemma tenths_gradient: "linearGradient binary64 tenths 3 = dbl 16"
  by (simp add: linearGradient_def tenths_run tenths_rise round_num_def binary64_sel b64
        strictEq_def isIntegral_def)

lemma tenths_intercept: "linearIntercept binary64 tenths (dbl 16) 3 = dbl 1.9"
  by (simp add: linearIntercept_def tenths_sums round_num_def binary64_sel b64 isIntegral_def)

text \<open>
  C7, as the specification states it: in the linear fit, whenever the least-squares
  denominator \<open>n \<Sigma>x\<^sup>2 - (\<Sigma>x)\<^sup>2\<close>, taken over the points with a y, is zero, the
  gradient returned is 0. This fails on the six points above: their denominator is 0,
  the run the fit computes is not, and the fit returns the gradient 16 with the
  intercept 1.9.
\<close>

theorem linear_zero_denominator_counterexample:
  "leastSquaresDenominator exact (map exactPoint tenths) = Fin 0
   \<and> linearRun binary64 tenths = Double (Fin (1 / 2 ^ 53))
   \<and> (\<exists>r. linear_fit binary64 tenths DEFAULT_OPTIONS = Some r \<and> coefficients r = [dbl 16, dbl 1.9])"
  by (simp add: tenths_exact tenths_run linear_fit_Some Let_def DEFAULT_OPTIONS_def
        tenths_gradient tenths_intercept)

text \<open>
  C7, amended: in the linear fit, whenever the least-squares denominator
  \<open>n \<Sigma>x\<^sup>2 - (\<Sigma>x)\<^sup>2\<close> as the fit computes it (in the arithmetic of the host, the sums
  taken over the points with a y in their order, \<open>n\<close> their number) is equal to 0 by
  \<open>===\<close>, the gradient returned is 0; and the coefficient array of the result is the
  gradient followed by the intercept. This holds in every arithmetic.
\<close>

theorem linear_zero_denominator:
  assumes "strict_eq H (leastSquaresDenominator H apoints) (lit H 0)"
  shows "\<exists>r. linear_fit H apoints aoptions = Some r
           \<and> coefficients r ! 0 = lit H 0
           \<and> coefficients r = [linearGradient H apoints (precision aoptions),
                               linearIntercept H apoints (linearGradient H apoints (precision aoptions))
                                 (precision aoptions)]"
proof -
  have "linearGradient H apoints (precision aoptions) = lit H 0"
    using assms by (simp add: linearGradient_def linearRun_denominator)
  then show ?thesis by (simp add: linear_fit_Some Let_def)
qed

theorem linear_zero_denominator_witness:
  "strict_eq binary64 (leastSquaresDenominator binary64 [pt64 2 3, ptNull64 7, pt64 2 5]) (lit binary64 0)
   \<and> (\<exists>r. linear_fit binary64 [pt64 2 3, ptNull64 7, pt64 2 5] DEFAULT_OPTIONS = Some r
          \<and> coefficients r = [dbl 0, dbl 4])"
proof -
  have h: "strict_eq binary64 (leastSquaresDenominator binary64 [pt64 2 3, ptNull64 7, pt64 2 5]) (lit binary64 0)"
    by (simp add: leastSquaresDenominator_def presentPoints_def pt64_def ptNull64_def binary64_sel b64 strictEq_def)
  have g: "lit binary64 0 = dbl 0"
    by (simp add: binary64_sel)
  have i: "linearIntercept binary64 [pt64 2 3, ptNull64 7, pt64 2 5] (dbl 0) 3 = dbl 4"
    by (simp add: linearIntercept_def linearSums_def round_num_def pt64_def ptNull64_def binary64_sel b64 isIntegral_def)
  from linear_zero_denominator [OF h, of DEFAULT_OPTIONS]
  show ?thesis using h i g by (auto simp: DEFAULT_OPTIONS_def)
qed

section \<open>Points, predictions and their alignment\<close>

lemma predicted_x:
  "pt_x (predictedPoint H x newY prec) = round_num H x prec"
  by (simp add: predictedPoint_def)

text \<open>
  C8: every fit returns, for every input, a result whose \<open>points\<close> is the input list
  as it was given, unrounded, and whose \<open>predicted\<close> has one entry per input point, in
  the same order: the entry at an index is the fit's prediction function applied to the
  x of the input point at that index, so its x is that x rounded.
\<close>

theorem fits_keep_points_and_alignment:
  "(\<exists>r. linear_fit H apoints aoptions = Some r
        \<and> points r = apoints \<and> length (predicted r) = length apoints
        \<and> predicted r = map (\<lambda>p. predictLinearFn H (coefficients r ! 0) (coefficients r ! 1)
                                   (precision aoptions) (pt_x p)) apoints
        \<and> map pt_x (predicted r) = map (\<lambda>p. round_num H (pt_x p) (precision aoptions)) apoints)
   \<and> (\<exists>r. exponential H L apoints aoptions = Some r
        \<and> points r = apoints \<and> length (predicted r) = length apoints
        \<and> predicted r = map (\<lambda>p. predictExponentialFn H L (coefficients r ! 0) (coefficients r ! 1)
                                   (precision aoptions) (pt_x p)) apoints
        \<and> map pt_x (predicted r) = map (\<lambda>p. round_num H (pt_x p) (precision aoptions)) apoints)
   \<and> (\<exists>r. logarithmic H L apoints aoptions = Some r
        \<and> points r = apoints \<and> length (predicted r) = length apoints
        \<and> predicted r = map (\<lambda>p. predictLogaritmicFn H L (coefficients r ! 0) (coefficients r ! 1)
                                   (precision aoptions) (pt_x p)) apoints
        \<and> map pt_x (predicted r) = map (\<lambda>p. round_num H (pt_x p) (precision aoptions)) apoints)
   \<and> (\<exists>r. power_fit H L apoints aoptions = Some r
        \<and> points r = apoints \<and> length (predicted r) = length apoints
        \<and> predicted r = map (\<lambda>p. predictPowerFn H (coefficients r ! 0) (coefficients r ! 1)
                                   (precision aoptions) (pt_x p)) apoints
        \<and> map pt_x (predicted r) = map (\<lambda>p. round_num H (pt_x p) (precision aoptions)) apoints)
   \<and> (\<exists>r. polynomial H apoints aoptions = Some r
        \<and> points r = apoints \<and> length (predicted r) = length apoints
        \<and> predicted r = map (\<lambda>p. predictPolynomialFn H (rev (coefficients r))
                                   (precision aoptions) (pt_x p)) apoints
        \<and> map pt_x (predicted r) = map (\<lambda>p. round_num H (pt_x p) (precision aoptions)) apoints)"
proof (intro conjI)
  show "\<exists>r. linear_fit H apoints aoptions = Some r
        \<and> points r = apoints \<and> length (predicted r) = length apoints
        \<and> predicted r = map (\<lambda>p. predictLinearFn H (coefficients r ! 0) (coefficients r ! 1)
                                   (precision aoptions) (pt_x p)) apoints
        \<and> map pt_x (predicted r) = map (\<lambda>p. round_num H (pt_x p) (precision aoptions)) apoints"
    by (simp add: linear_fit_Some Let_def predictLinearFn_def predicted_x)
  show "\<exists>r. exponential H L apoints aoptions = Some r
        \<and> points r = apoints \<and> length (predicted r) = length apoints
        \<and> predicted r = map (\<lambda>p. predictExponentialFn H L (coefficients r ! 0) (coefficients r ! 1)
                                   (precision aoptions) (pt_x p)) apoints
        \<and> map pt_x (predicted r) = map (\<lambda>p. round_num H (pt_x p) (precision aoptions)) apoints"
    by (simp add: exponential_Some Let_def case_prod_unfold predictExponentialFn_def predicted_x)
  show "\<exists>r. logarithmic H L apoints aoptions = Some r
        \<and> points r = apoints \<and> length (predicted r) = length apoints
        \<and> predicted r = map (\<lambda>p. predictLogaritmicFn H L (coefficients r ! 0) (coefficients r ! 1)
                                   (precision aoptions) (pt_x p)) apoints
        \<and> map pt_x (predicted r) = map (\<lambda>p. round_num H (pt_x p) (precision aoptions)) apoints"
    by (simp add: logarithmic_Some Let_def predictLogaritmicFn_def predicted_x)
  show "\<exists>r. power_fit H L apoints aoptions = Some r
        \<and> points r = apoints \<and> length (predicted r) = length apoints
        \<and> predicted r = map (\<lambda>p. predictPowerFn H (coefficients r ! 0) (coefficients r ! 1)
                                   (precision aoptions) (pt_x p)) apoints
        \<and> map pt_x (predicted r) = map (\<lambda>p. round_num H (pt_x p) (precision aoptions)) apoints"
    by (simp add: power_fit_Some Let_def case_prod_unfold predictPowerFn_def predicted_x)
  show "\<exists>r. polynomial H apoints aoptions = Some r
        \<and> points r = apoints \<and> length (predicted r) = length apoints
        \<and> predicted r = map (\<lambda>p. predictPolynomialFn H (rev (coefficients r))
                                   (precision aoptions) (pt_x p)) apoints
        \<and> map pt_x (predicted r) = map (\<lambda>p. round_num H (pt_x p) (precision aoptions)) apoints"
    by (simp add: polynomial_Some Let_def predictPolynomialFn_def predicted_x)
qed

section \<open>Predictions use the rounded coefficients\<close>

text \<open>
  Each fit spelled out in the operations of the host, for every input and in every
  arithmetic: the coefficients returned are the estimates rounded, every predicted y is
  the formula of the fit on the coefficients returned, rounded, and \<open>r2\<close> is the rounded
  coefficient of determination of these predictions. In the linear fit the intercept is
  computed from the gradient returned, in the logarithmic fit the coefficient a from
  the coefficient b returned; in the power fit a is computed from b before the rounding.
\<close>

lemma linear_from_rounded:
  "\<exists>r. linear_fit H apoints aoptions = Some r
     \<and> (let prec = precision aoptions;
             n = lit H (int (fst (linearSums H apoints)));
             sum = snd (linearSums H apoints);
             gradient = coefficients r ! 0;
             intercept = coefficients r ! 1
         in coefficients r = [gradient, intercept]
          \<and> gradient = (if strict_eq H (linearRun H apoints) (lit H 0) then lit H 0
                        else round_num H (linearRise H apoints / linearRun H apoints) prec)
          \<and> intercept = round_num H ((sum ! 1 / n) - ((gradient * sum ! 0) / n)) prec
          \<and> predicted r =
              map (\<lambda>p. \<lparr>pt_x = round_num H (pt_x p) prec,
                        pt_y = Some (round_num H ((gradient * pt_x p) + intercept) prec)\<rparr>) apoints
          \<and> r2 r = round_num H (the (determinationCoefficient H apoints (predicted r))) prec)"
  by (simp add: linear_fit_Some Let_def linearGradient_def linearIntercept_def case_prod_unfold
        predictLinearFn_def predictedPoint_def)

lemma exponential_from_rounded:
  "\<exists>r. exponential H L apoints aoptions = Some r
     \<and> (let prec = precision aoptions;
             sum = exponentialSums H L apoints;
             denominator = (sum ! 1 * sum ! 2) - (sum ! 5 * sum ! 5);
             a = Math_exp L (((sum ! 2 * sum ! 3) - (sum ! 5 * sum ! 4)) / denominator);
             b = ((sum ! 1 * sum ! 4) - (sum ! 5 * sum ! 3)) / denominator;
             coeffA = round_num H a prec;
             coeffB = round_num H b prec
         in coefficients r = [coeffA, coeffB]
          \<and> predicted r =
              map (\<lambda>p. \<lparr>pt_x = round_num H (pt_x p) prec,
                        pt_y = Some (round_num H (coeffA * Math_exp L (coeffB * pt_x p)) prec)\<rparr>) apoints
          \<and> r2 r = round_num H (the (determinationCoefficient H apoints (predicted r))) prec)"
  by (simp add: exponential_Some Let_def exponentialCoeffs_def case_prod_unfold
        predictExponentialFn_def predictedPoint_def)

lemma logarithmic_from_rounded:
  "\<exists>r. logarithmic H L apoints aoptions = Some r
     \<and> (let prec = precision aoptions;
             sum = logarithmicSums H L apoints;
             len = lit H (int (length apoints));
             b = ((len * sum ! 1) - (sum ! 2 * sum ! 0)) / ((len * sum ! 3) - (sum ! 0 * sum ! 0));
             coeffB = round_num H b prec;
             coeffA = round_num H ((sum ! 2 - (coeffB * sum ! 0)) / len) prec
         in coefficients r = [coeffA, coeffB]
          \<and> predicted r =
              map (\<lambda>p. \<lparr>pt_x = round_num H (pt_x p) prec,
                        pt_y = Some (round_num H (coeffA + (coeffB * Math_log L (pt_x p))) prec)\<rparr>) apoints
          \<and> r2 r = round_num H (the (determinationCoefficient H apoints (predicted r))) prec)"
  by (simp add: logarithmic_Some Let_def logarithmicCoeffA_def logarithmicCoeffB_def
        predictLogaritmicFn_def predictedPoint_def)

lemma power_from_rounded:
  "\<exists>r. power_fit H L apoints aoptions = Some r
     \<and> (let prec = precision aoptions;
             sum = powerSums H L apoints;
             len = lit H (int (length apoints));
             b = ((len * sum ! 1) - (sum ! 0 * sum ! 2)) / ((len * sum ! 3) - power_op H (sum ! 0) (lit H 2));
             a = (sum ! 2 - (b * sum ! 0)) / len;
             coeffA = round_num H (Math_exp L a) prec;
             coeffB = round_num H b prec
         in coefficients r = [coeffA, coeffB]
          \<and> predicted r =
              map (\<lambda>p. \<lparr>pt_x = round_num H (pt_x p) prec,
                        pt_y = Some (round_num H (coeffA * power_op H (pt_x p) coeffB) prec)\<rparr>) apoints
          \<and> r2 r = round_num H (the (determinationCoefficient H apoints (predicted r))) prec)"
  by (simp add: power_fit_Some Let_def powerCoeffs_def case_prod_unfold
        predictPowerFn_def predictedPoint_def)

lemma polynomial_from_rounded:
  "\<exists>r. polynomial H apoints aoptions = Some r
     \<and> (let prec = precision aoptions;
             k = order aoptions + 1;
             rhs = polynomialRhs H apoints (nat k);
             solved = snd (gaussianElimination H rhs [0..<length rhs] k);
             coeffs = map (\<lambda>v. round_num H v prec) solved
         in coefficients r = rev coeffs
          \<and> predicted r =
              map (\<lambda>p. \<lparr>pt_x = round_num H (pt_x p) prec,
                        pt_y = Some (round_num H
                          (foldl (\<lambda>sum (coeff, power). sum + (coeff * power_op H (pt_x p) (lit H (int power))))
                                 (lit H 0) (zip coeffs [0..<length coeffs])) prec)\<rparr>) apoints
          \<and> r2 r = round_num H (the (determinationCoefficient H apoints (predicted r))) prec)"
  by (simp add: polynomial_Some Let_def polynomialCoefficients_def
        predictPolynomialFn_def polynomialValue_def predictedPoint_def)

text \<open>
  Inputs where the rounding shows, at precision 0. On (0,0), (10,5), (20,10) the
  least-squares line is \<open>y = 0.5x\<close>: the linear fit rounds the gradient to 1, derives
  the intercept -5 from it, and predicts with \<open>y = x - 5\<close>; the polynomial fit of order 1
  solves for \<open>[0, 0.5]\<close>, rounds to \<open>[0, 1]\<close> and predicts with \<open>y = x\<close>. Every
  intermediate value is a double there.
\<close>

lemma linear_raw_example:
  "linearRise exact halves / linearRun exact halves = Fin (1 / 2)"
  by code_simp

lemma linear_rounded_example:
  "linear_fit exact halves \<lparr>order = 2, precision = 0\<rparr> =
     Some \<lparr>points = halves,
           predicted = [pt 0 (- 5), pt 10 5, pt 20 15],
           rtype = LINEAR,
           coefficients = [Fin 1, Fin (- 5)],
           equation = [Txt ''y = '', Val (Fin 1), Txt ''x + '', Val (Fin (- 5))],
           r2 = Fin 0\<rparr>"
  by code_simp

lemma polynomial_raw_example:
  "snd (gaussianElimination exact (polynomialRhs exact halves 2) [0, 1, 2] 2) = [Fin 0, Fin (1 / 2)]"
  by code_simp

lemma polynomial_rounded_example:
  "polynomial exact halves \<lparr>order = 1, precision = 0\<rparr> =
     Some \<lparr>points = halves,
           predicted = [pt 0 0, pt 10 10, pt 20 20],
           rtype = POLYNOMIAL,
           coefficients = [Fin 1, Fin 0],
           equation = [Txt ''y = '', Val (Fin 1), Txt ''x + '', Val (Fin 0)],
           r2 = Fin (- 1)\<rparr>"
  by code_simp

text \<open>
  For the fits that take logarithms the inputs are powers of 2, and the estimates are
  rational multiples of \<open>ln 2\<close> or of its inverse, far enough from a tie for the doubles
  to round as the reals do. All that is needed of \<open>ln 2\<close> is that it lies between 5/8
  and 7/8.
\<close>

lemma ln2_lower: "5 / 8 < ln (2 :: real)"
proof -
  have "exp (5 / 16 :: real) \<le> 1 + 5 / 16 + (5 / 16)\<^sup>2"
    by (rule exp_bound) simp_all
  then have a: "exp (5 / 16 :: real) \<le> 361 / 256" by (simp add: power2_eq_square)
  have "exp (5 / 8 :: real) = exp (5 / 16) * exp (5 / 16)"
    by (simp add: exp_add [symmetric])
  also have "\<dots> \<le> (361 / 256) * (361 / 256)"
    using a by (intro mult_mono) simp_all
  also have "\<dots> < 2" by simp
  finally have "exp (5 / 8 :: real) < exp (ln 2)" by simp
  then show ?thesis by (simp only: exp_less_cancel_iff)
qed

lemma ln2_upper: "ln (2 :: real) < 7 / 8"
proof -
  have "1 + (7 / 8 :: real) + (7 / 8)\<^sup>2 / 2 \<le> exp (7 / 8)"
    by (rule exp_lower_Taylor_quadratic) simp
  then have "exp (ln 2) < exp (7 / 8 :: real)" by (simp add: power2_eq_square)
  then show ?thesis by (simp only: exp_less_cancel_iff)
qed

lemma ln_4: "ln (4 :: real) = 2 * ln 2"
proof -
  have "ln (2 ^ 2 :: real) = real 2 * ln 2" by (rule ln_realpow)
  moreover have "(2 ^ 2 :: real) = 4" by simp
  ultimately show ?thesis by simp
qed

lemma ln_8: "ln (8 :: real) = 3 * ln 2"
proof -
  have "ln (2 ^ 3 :: real) = real 3 * ln 2" by (rule ln_realpow)
  moreover have "(2 ^ 3 :: real) = 8" by simp
  ultimately show ?thesis by simp
qed

lemma ln_16: "ln (16 :: real) = 4 * ln 2"
proof -
  have "ln (2 ^ 4 :: real) = real 4 * ln 2" by (rule ln_realpow)
  moreover have "(2 ^ 4 :: real) = 16" by simp
  ultimately show ?thesis by simp
qed

text \<open>
  On (0,1), (2,2), (4,4) the exponential estimates are \<open>a = 1\<close> and \<open>b = ln 2 / 2\<close>;
  \<open>b\<close> rounds to 0 and every prediction is 1.
\<close>

lemma doubling_sums:
  "exponentialSums exact exact_logs doubling
     = [Fin 6, Fin 7, Fin 72, Fin (10 * ln 2), Fin (36 * ln 2), Fin 20]"
  by (simp add: doubling_def exponentialSums_def exact_sel exact_logs_sel ofInt_def pt_def ln_4)

lemma doubling_raw:
  "(let sum = exponentialSums exact exact_logs doubling;
        denominator = (sum ! 1 * sum ! 2) - (sum ! 5 * sum ! 5)
    in (mathExp (((sum ! 2 * sum ! 3) - (sum ! 5 * sum ! 4)) / denominator),
        ((sum ! 1 * sum ! 4) - (sum ! 5 * sum ! 3)) / denominator))
   = (Fin 1, Fin (ln 2 / 2))"
  by (simp add: doubling_sums Let_def minus_num_def)

lemma doubling_floor: "\<lfloor>ln 2 / 2 + 1 / 2 :: real\<rfloor> = 0"
  using ln2_lower ln2_upper by (simp add: floor_eq_iff field_simps)

lemma doubling_coeffs:
  "exponentialCoeffs exact exact_logs doubling 0 = (Fin 1, Fin 0)"
  by (simp add: exponentialCoeffs_def doubling_sums Let_def exact_sel exact_logs_sel ofInt_def
        minus_num_def round_num_Fin doubling_floor)

lemma doubling_predicted:
  "map (\<lambda>point. predictExponentialFn exact exact_logs (Fin 1) (Fin 0) 0 (pt_x point)) doubling
     = [pt 0 1, pt 2 1, pt 4 1]"
  by (simp add: doubling_def predictExponentialFn_def predictedPoint_def pt_def exact_logs_sel
        round_num_Fin)

lemma doubling_r2:
  "round_num exact (the (determinationCoefficient exact doubling [pt 0 1, pt 2 1, pt 4 1])) 0 = Fin (- 1)"
  unfolding doubling_def by code_simp

lemma exponential_rounded_example:
  "exponential exact exact_logs doubling \<lparr>order = 2, precision = 0\<rparr> =
     Some \<lparr>points = doubling,
           predicted = [pt 0 1, pt 2 1, pt 4 1],
           rtype = EXPONENTIAL,
           coefficients = [Fin 1, Fin 0],
           equation = [Txt ''y = '', Val (Fin 1), Txt ''e^('', Val (Fin 0), Txt ''x)''],
           r2 = Fin (- 1)\<rparr>"
  by (simp add: exponential_Some Let_def doubling_coeffs doubling_predicted doubling_r2)

text \<open>
  On (1,-0.25), (16,1.75) the logarithmic estimate of \<open>b\<close> is \<open>1 / (2 ln 2)\<close>, about
  0.72, which rounds to 1; \<open>a\<close>, computed from the rounded \<open>b\<close>, is the rounding of
  \<open>0.75 - 2 ln 2\<close>, which is -1 (from the estimate of \<open>b\<close> it would be -0.25, rounded
  0); the predictions are those of \<open>y = -1 + ln x\<close>.
\<close>

lemma quarters_sums:
  "logarithmicSums exact exact_logs quarters
     = [Fin (4 * ln 2), Fin (7 * ln 2), Fin (3 / 2), Fin (16 * (ln 2 * ln 2))]"
  by (simp add: quarters_def logarithmicSums_def exact_sel exact_logs_sel ofInt_def pt_def ln_16 isIntegral_def power2_eq_square)

lemma quarters_length: "length quarters = 2"
  by (simp add: quarters_def)

lemma quarters_raw:
  "(let sum = logarithmicSums exact exact_logs quarters; len = Fin 2
    in ((len * sum ! 1) - (sum ! 2 * sum ! 0)) / ((len * sum ! 3) - (sum ! 0 * sum ! 0)))
   = Fin (1 / (2 * ln 2))"
  by (simp add: quarters_sums Let_def minus_num_def field_simps)

lemma quarters_floor:
  "\<lfloor>1 / (2 * ln 2) + 1 / 2 :: real\<rfloor> = 1"
  "\<lfloor>(3 / 2 - 4 * ln 2) / 2 + 1 / 2 :: real\<rfloor> = - 1"
  "\<lfloor>4 * ln 2 - 1 / 2 :: real\<rfloor> = 2"
  using ln2_lower ln2_upper by (simp_all add: floor_eq_iff field_simps)

lemma quarters_b:
  "logarithmicCoeffB exact exact_logs quarters 0 = Fin 1"
  by (simp add: logarithmicCoeffB_def quarters_sums quarters_length Let_def exact_sel ofInt_def
        minus_num_def round_num_Fin power2_eq_square quarters_floor)

lemma quarters_a:
  "logarithmicCoeffA exact exact_logs quarters (Fin 1) 0 = Fin (- 1)"
  by (simp add: logarithmicCoeffA_def quarters_sums quarters_length Let_def exact_sel ofInt_def
        minus_num_def round_num_Fin power2_eq_square quarters_floor)

lemma quarters_predicted:
  "map (\<lambda>point. predictLogaritmicFn exact exact_logs (Fin (- 1)) (Fin 1) 0 (pt_x point)) quarters
     = [pt 1 (- 1), pt 16 2]"
  by (simp add: quarters_def predictLogaritmicFn_def predictedPoint_def pt_def exact_logs_sel
        round_num_Fin ln_16 quarters_floor)

lemma quarters_r2:
  "round_num exact (the (determinationCoefficient exact quarters [pt 1 (- 1), pt 16 2])) 0 = Fin 1"
  unfolding quarters_def by code_simp

lemma logarithmic_rounded_example:
  "logarithmic exact exact_logs quarters \<lparr>order = 2, precision = 0\<rparr> =
     Some \<lparr>points = quarters,
           predicted = [pt 1 (- 1), pt 16 2],
           rtype = LOGARITMIC,
           coefficients = [Fin (- 1), Fin 1],
           equation = [Txt ''y = '', Val (Fin (- 1)), Txt '' + '', Val (Fin 1), Txt '' ln(x)''],
           r2 = Fin 1\<rparr>"
  by (simp add: logarithmic_Some Let_def quarters_b quarters_a quarters_predicted quarters_r2)

text \<open>
  On (1,1), (16,8) the power estimates are \<open>a = 1\<close> and \<open>b = 3/4\<close>; \<open>b\<close> rounds to 1
  and the predictions are those of \<open>y = x\<close>.
\<close>

lemma eighths_sums:
  "powerSums exact exact_logs eighths
     = [Fin (4 * ln 2), Fin (12 * (ln 2 * ln 2)), Fin (3 * ln 2), Fin (16 * (ln 2 * ln 2)), Fin 0]"
  by (simp add: eighths_def powerSums_def exact_sel exact_logs_sel ofInt_def pt_def ln_16 ln_8
        isIntegral_def power2_eq_square)

lemma eighths_length: "length eighths = 2"
  by (simp add: eighths_def)

lemma eighths_raw:
  "(let sum = powerSums exact exact_logs eighths; len = Fin 2;
        b = ((len * sum ! 1) - (sum ! 0 * sum ! 2)) / ((len * sum ! 3) - pow (sum ! 0) (Fin 2))
    in (mathExp ((sum ! 2 - (b * sum ! 0)) / len), b))
   = (Fin 1, Fin (3 / 4))"
  by (simp add: eighths_sums Let_def minus_num_def isIntegral_def power2_eq_square)

lemma eighths_coeffs:
  "powerCoeffs exact exact_logs eighths 0 = (Fin 1, Fin 1)"
  using ln2_lower ln2_upper
  apply (simp add: powerCoeffs_def eighths_sums eighths_length Let_def exact_sel exact_logs_sel ofInt_def
        minus_num_def round_num_Fin isIntegral_def power2_eq_square)
  done

lemma eighths_predicted:
  "map (\<lambda>point. predictPowerFn exact (Fin 1) (Fin 1) 0 (pt_x point)) eighths
     = [pt 1 1, pt 16 16]"
  by (simp add: eighths_def predictPowerFn_def predictedPoint_def pt_def exact_sel
        round_num_Fin isIntegral_def)

lemma eighths_r2:
  "round_num exact (the (determinationCoefficient exact eighths [pt 1 1, pt 16 16])) 0 = Fin (- 2)"
  unfolding eighths_def by code_simp

lemma power_rounded_example:
  "power_fit exact exact_logs eighths \<lparr>order = 2, precision = 0\<rparr> =
     Some \<lparr>points = eighths,
           predicted = [pt 1 1, pt 16 16],
           rtype = POWER,
           coefficients = [Fin 1, Fin 1],
           equation = [Txt ''y = '', Val (Fin 1), Txt ''x^'', Val (Fin 1)],
           r2 = Fin (- 2)\<rparr>"
  by (simp add: power_fit_Some Let_def eighths_coeffs eighths_predicted eighths_r2)

text \<open>
  C10: in every fit the predicted y, and with them \<open>r2\<close>, are computed from the
  coefficients after their rounding to the precision, not from the estimates: for every
  input and in every arithmetic, the coefficients returned are the rounded estimates,
  every predicted y is the formula of the fit on the coefficients returned, rounded, and
  \<open>r2\<close> is the rounded coefficient of determination of these predictions; in the
  linear fit the intercept is computed from the rounded gradient, and in the logarithmic
  fit the coefficient a from the rounded coefficient b. At precision 0 the linear fit on
  (0,0), (10,5), (20,10) returns \<open>[1, -5]\<close> and predicts -5, 5, 15; the exponential fit
  on (0,1), (2,2), (4,4) returns \<open>[1, 0]\<close> and predicts 1, 1, 1; the logarithmic fit on
  (1,-0.25), (16,1.75) returns \<open>[-1, 1]\<close> and predicts -1, 2; the power fit on (1,1),
  (16,8) returns \<open>[1, 1]\<close> and predicts 1, 16; the polynomial fit of order 1 on (0,0),
  (10,5), (20,10) returns \<open>[1, 0]\<close> and predicts 0, 10, 20.
\<close>

theorem predictions_from_rounded_coefficients:
  "(\<exists>r. linear_fit H apoints aoptions = Some r
     \<and> (let prec = precision aoptions;
             n = lit H (int (fst (linearSums H apoints)));
             sum = snd (linearSums H apoints);
             gradient = coefficients r ! 0;
             intercept = coefficients r ! 1
         in coefficients r = [gradient, intercept]
          \<and> gradient = (if strict_eq H (linearRun H apoints) (lit H 0) then lit H 0
                        else round_num H (linearRise H apoints / linearRun H apoints) prec)
          \<and> intercept = round_num H ((sum ! 1 / n) - ((gradient * sum ! 0) / n)) prec
          \<and> predicted r =
              map (\<lambda>p. \<lparr>pt_x = round_num H (pt_x p) prec,
                        pt_y = Some (round_num H ((gradient * pt_x p) + intercept) prec)\<rparr>) apoints
          \<and> r2 r = round_num H (the (determinationCoefficient H apoints (predicted r))) prec))
   \<and> (\<exists>r. exponential H L apoints aoptions = Some r
     \<and> (let prec = precision aoptions;
             sum = exponentialSums H L apoints;
             denominator = (sum ! 1 * sum ! 2) - (sum ! 5 * sum ! 5);
             a = Math_exp L (((sum ! 2 * sum ! 3) - (sum ! 5 * sum ! 4)) / denominator);
             b = ((sum ! 1 * sum ! 4) - (sum ! 5 * sum ! 3)) / denominator;
             coeffA = round_num H a prec;
             coeffB = round_num H b prec
         in coefficients r = [coeffA, coeffB]
          \<and> predicted r =
              map (\<lambda>p. \<lparr>pt_x = round_num H (pt_x p) prec,
                        pt_y = Some (round_num H (coeffA * Math_exp L (coeffB * pt_x p)) prec)\<rparr>) apoints
          \<and> r2 r = round_num H (the (determinationCoefficient H apoints (predicted r))) prec))
   \<and> (\<exists>r. logarithmic H L apoints aoptions = Some r
     \<and> (let prec = precision aoptions;
             sum = logarithmicSums H L apoints;
             len = lit H (int (length apoints));
             b = ((len * sum ! 1) - (sum ! 2 * sum ! 0)) / ((len * sum ! 3) - (sum ! 0 * sum ! 0));
             coeffB = round_num H b prec;
             coeffA = round_num H ((sum ! 2 - (coeffB * sum ! 0)) / len) prec
         in coefficients r = [coeffA, coeffB]
          \<and> predicted r =
              map (\<lambda>p. \<lparr>pt_x = round_num H (pt_x p) prec,
                        pt_y = Some (round_num H (coeffA + (coeffB * Math_log L (pt_x p))) prec)\<rparr>) apoints
          \<and> r2 r = round_num H (the (determinationCoefficient H apoints (predicted r))) prec))
   \<and> (\<exists>r. power_fit H L apoints aoptions = Some r
     \<and> (let prec = precision aoptions;
             sum = powerSums H L apoints;
             len = lit H (int (length apoints));
             b = ((len * sum ! 1) - (sum ! 0 * sum ! 2)) / ((len * sum ! 3) - power_op H (sum ! 0) (lit H 2));
             a = (sum ! 2 - (b * sum ! 0)) / len;
             coeffA = round_num H (Math_exp L a) prec;
             coeffB = round_num H b prec
         in coefficients r = [coeffA, coeffB]
          \<and> predicted r =
              map (\<lambda>p. \<lparr>pt_x = round_num H (pt_x p) prec,
                        pt_y = Some (round_num H (coeffA * power_op H (pt_x p) coeffB) prec)\<rparr>) apoints
          \<and> r2 r = round_num H (the (determinationCoefficient H apoints (predicted r))) prec))
   \<and> (\<exists>r. polynomial H apoints aoptions = Some r
     \<and> (let prec = precision aoptions;
             k = order aoptions + 1;
             rhs = polynomialRhs H apoints (nat k);
             solved = snd (gaussianElimination H rhs [0..<length rhs] k);
             coeffs = map (\<lambda>v. round_num H v prec) solved
         in coefficients r = rev coeffs
          \<and> predicted r =
              map (\<lambda>p. \<lparr>pt_x = round_num H (pt_x p) prec,
                        pt_y = Some (round_num H
                          (foldl (\<lambda>sum (coeff, power). sum + (coeff * power_op H (pt_x p) (lit H (int power))))
                                 (lit H 0) (zip coeffs [0..<length coeffs])) prec)\<rparr>) apoints
          \<and> r2 r = round_num H (the (determinationCoefficient H apoints (predicted r))) prec))
   \<and> linear_fit exact halves \<lparr>order = 2, precision = 0\<rparr> =
     Some \<lparr>points = halves,
           predicted = [pt 0 (- 5), pt 10 5, pt 20 15],
           rtype = LINEAR,
           coefficients = [Fin 1, Fin (- 5)],
           equation = [Txt ''y = '', Val (Fin 1), Txt ''x + '', Val (Fin (- 5))],
           r2 = Fin 0\<rparr>
   \<and> exponential exact exact_logs doubling \<lparr>order = 2, precision = 0\<rparr> =
     Some \<lparr>points = doubling,
           predicted = [pt 0 1, pt 2 1, pt 4 1],
           rtype = EXPONENTIAL,
           coefficients = [Fin 1, Fin 0],
           equation = [Txt ''y = '', Val (Fin 1), Txt ''e^('', Val (Fin 0), Txt ''x)''],
           r2 = Fin (- 1)\<rparr>
   \<and> logarithmic exact exact_logs quarters \<lparr>order = 2, precision = 0\<rparr> =
     Some \<lparr>points = quarters,
           predicted = [pt 1 (- 1), pt 16 2],
           rtype = LOGARITMIC,
           coefficients = [Fin (- 1), Fin 1],
           equation = [Txt ''y = '', Val (Fin (- 1)), Txt '' + '', Val (Fin 1), Txt '' ln(x)''],
           r2 = Fin 1\<rparr>
   \<and> power_fit exact exact_logs eighths \<lparr>order = 2, precision = 0\<rparr> =
     Some \<lparr>points = eighths,
           predicted = [pt 1 1, pt 16 16],
           rtype = POWER,
           coefficients = [Fin 1, Fin 1],
           equation = [Txt ''y = '', Val (Fin 1), Txt ''x^'', Val (Fin 1)],
           r2 = Fin (- 2)\<rparr>
   \<and> polynomial exact halves \<lparr>order = 1, precision = 0\<rparr> =
     Some \<lparr>points = halves,
           predicted = [pt 0 0, pt 10 10, pt 20 20],
           rtype = POLYNOMIAL,
           coefficients = [Fin 1, Fin 0],
           equation = [Txt ''y = '', Val (Fin 1), Txt ''x + '', Val (Fin 0)],
           r2 = Fin (- 1)\<rparr>"
  by (intro conjI linear_from_rounded exponential_from_rounded logarithmic_from_rounded
        power_from_rounded polynomial_from_rounded linear_rounded_example
        exponential_rounded_example logarithmic_rounded_example power_rounded_example
        polynomial_rounded_example)

section \<open>Points without a y\<close>

lemma fold_skip_absent:
  "fold (\<lambda>p s. case pt_y p of None \<Rightarrow> s | Some y \<Rightarrow> f p y s) apoints s0
   = fold (\<lambda>p s. case pt_y p of None \<Rightarrow> s | Some y \<Rightarrow> f p y s) (presentPoints apoints) s0"
  by (induction apoints arbitrary: s0) (auto simp: presentPoints_def split: option.splits)

lemma presentPoints_idem: "presentPoints (presentPoints apoints) = presentPoints apoints"
  by (simp add: presentPoints_def)

lemma linearSums_skip: "linearSums H (presentPoints apoints) = linearSums H apoints"
  by (simp add: linearSums_present presentPoints_idem)

lemma exponentialSums_skip: "exponentialSums H L (presentPoints apoints) = exponentialSums H L apoints"
  unfolding exponentialSums_def by (rule fold_skip_absent [symmetric])

lemma logarithmicSums_skip: "logarithmicSums H L (presentPoints apoints) = logarithmicSums H L apoints"
  unfolding logarithmicSums_def by (rule fold_skip_absent [symmetric])

lemma powerSums_skip: "powerSums H L (presentPoints apoints) = powerSums H L apoints"
  unfolding powerSums_def by (rule fold_skip_absent [symmetric])

lemma polynomialRhs_skip: "polynomialRhs H (presentPoints apoints) k = polynomialRhs H apoints k"
  unfolding polynomialRhs_def polynomialLhs_def
  by (simp add: fold_skip_absent [of _ apoints, symmetric])

text \<open>
  The linear, the exponential and the polynomial fit return the coefficients of the
  points with a y alone, in every arithmetic.
\<close>

lemma sibling_fits_skip_absent:
  "coefficients (the (linear_fit H apoints aoptions))
     = coefficients (the (linear_fit H (presentPoints apoints) aoptions))
   \<and> coefficients (the (exponential H L apoints aoptions))
     = coefficients (the (exponential H L (presentPoints apoints) aoptions))
   \<and> coefficients (the (polynomial H apoints aoptions))
     = coefficients (the (polynomial H (presentPoints apoints) aoptions))"
  by (simp add: linear_fit_Some exponential_Some polynomial_Some Let_def case_prod_unfold
      linearGradient_def linearIntercept_def linearRun_def linearRise_def linearSums_skip
      exponentialCoeffs_def exponentialSums_skip polynomialCoefficients_def polynomialRhs_skip)

lemma ln_half: "ln (1 / 2 :: real) = - ln 2"
  by (simp add: ln_div)

lemma ln2_nz: "ln (2::real) \<noteq> 0"
  by simp

lemma logarithmicSums_example:
  "logarithmicSums exact exact_logs [pt 2 3, pt (1 / 2) 3, ptNull 1] = [Fin 0, Fin 0, Fin 6, Fin (2 * (ln 2)\<^sup>2)]"
  by (simp add: logarithmicSums_def exact_sel exact_logs_sel ofInt_def pt_def ptNull_def ln_half isIntegral_def power2_eq_square)

lemma logarithmic_example:
  "coefficients (the (logarithmic exact exact_logs [pt 2 3, pt (1 / 2) 3, ptNull 1] \<lparr>order = 2, precision = 0\<rparr>))
     = [Fin 2, Fin 0]
   \<and> coefficients (the (logarithmic exact exact_logs (presentPoints [pt 2 3, pt (1 / 2) 3, ptNull 1]) \<lparr>order = 2, precision = 0\<rparr>))
     = [Fin 3, Fin 0]"
proof -
  have s: "logarithmicSums exact exact_logs (presentPoints [pt 2 3, pt (1 / 2) 3, ptNull 1]) = [Fin 0, Fin 0, Fin 6, Fin (2 * (ln 2)\<^sup>2)]"
    by (simp add: logarithmicSums_skip logarithmicSums_example)
  have l: "length (presentPoints [pt 2 3, pt (1 / 2) 3, ptNull 1]) = 2"
    by (simp add: presentPoints_def pt_def ptNull_def)
  show ?thesis
    by (simp add: logarithmic_Some Let_def logarithmicCoeffA_def logarithmicCoeffB_def
        logarithmicSums_example s l exact_sel exact_logs_sel ofInt_def minus_num_def round_num_Fin)
qed

lemma powerSums_example:
  "powerSums exact exact_logs [pt 2 8, pt (1 / 2) 8, ptNull 1] = [Fin 0, Fin 0, Fin (6 * ln 2), Fin (2 * (ln 2)\<^sup>2), Fin 0]"
  by (simp add: powerSums_def exact_sel exact_logs_sel ofInt_def pt_def ptNull_def ln_half ln_8 isIntegral_def power2_eq_square)

lemma exp_2ln2: "exp (2 * ln 2) = (4::real)"
proof -
  have "exp (real 2 * ln 2) = exp (ln (2::real)) ^ 2" by (rule exp_of_nat_mult)
  then show ?thesis by simp
qed

lemma exp_3ln2: "exp (3 * ln 2) = (8::real)"
proof -
  have "exp (real 3 * ln 2) = exp (ln (2::real)) ^ 3" by (rule exp_of_nat_mult)
  then show ?thesis by simp
qed

lemma power_fit_example:
  "coefficients (the (power_fit exact exact_logs [pt 2 8, pt (1 / 2) 8, ptNull 1] \<lparr>order = 2, precision = 0\<rparr>))
     = [Fin 4, Fin 0]
   \<and> coefficients (the (power_fit exact exact_logs (presentPoints [pt 2 8, pt (1 / 2) 8, ptNull 1]) \<lparr>order = 2, precision = 0\<rparr>))
     = [Fin 8, Fin 0]"
proof -
  have s: "powerSums exact exact_logs (presentPoints [pt 2 8, pt (1 / 2) 8, ptNull 1]) = [Fin 0, Fin 0, Fin (6 * ln 2), Fin (2 * (ln 2)\<^sup>2), Fin 0]"
    by (simp add: powerSums_skip powerSums_example)
  have l: "length (presentPoints [pt 2 8, pt (1 / 2) 8, ptNull 1]) = 2"
    by (simp add: presentPoints_def pt_def ptNull_def)
  show ?thesis
    by (simp add: power_fit_Some Let_def powerCoeffs_def isIntegral_def
        powerSums_example s l exact_sel exact_logs_sel ofInt_def minus_num_def round_num_Fin exp_2ln2 exp_3ln2)
qed

text \<open>
  C3: in every fit, the points without a y contribute nothing to the coefficients, which
  are those of the points with a y alone. The linear, exponential and polynomial fits do
  this (\<open>sibling_fits_skip_absent\<close>). The logarithmic and the power fit do not: their
  sums skip the points without a y, but their divisor \<open>len\<close> is the number of all
  points. With precision 0, on (2,3), (0.5,3) and a third point (1, null) the
  logarithmic fit returns \<open>[2, 0]\<close>, and on the two points with a y alone \<open>[3, 0]\<close>;
  on (2,8), (0.5,8) and (1, null) the power fit returns \<open>[4, 0]\<close>, and on the two
  points with a y alone \<open>[8, 0]\<close>.
\<close>

theorem logarithmic_and_power_count_absent_y:
  "coefficients (the (logarithmic exact exact_logs [pt 2 3, pt (1 / 2) 3, ptNull 1] \<lparr>order = 2, precision = 0\<rparr>))
     = [Fin 2, Fin 0]
   \<and> coefficients (the (logarithmic exact exact_logs (presentPoints [pt 2 3, pt (1 / 2) 3, ptNull 1]) \<lparr>order = 2, precision = 0\<rparr>))
     = [Fin 3, Fin 0]
   \<and> coefficients (the (power_fit exact exact_logs [pt 2 8, pt (1 / 2) 8, ptNull 1] \<lparr>order = 2, precision = 0\<rparr>))
     = [Fin 4, Fin 0]
   \<and> coefficients (the (power_fit exact exact_logs (presentPoints [pt 2 8, pt (1 / 2) 8, ptNull 1]) \<lparr>order = 2, precision = 0\<rparr>))
     = [Fin 8, Fin 0]"
  using logarithmic_example power_fit_example by simp

section \<open>The solver works on the arrays of its caller\<close>

text \<open>
  Reading and writing an entry through a reference of the matrix is reading and writing
  that entry of its contents, as long as the references lead to different arrays.
\<close>

lemma length_setEntry: "length (setEntry H h m k i v) = length h"
  by (simp add: setEntry_def)

lemma entry_contents:
  "k < length m \<Longrightarrow> entry H h m k i = item H (contents h m ! k) i"
  by (simp add: entry_def contents_def)

lemma contents_setEntry:
  assumes "refsIn m h" "k < length m"
  shows "contents (setEntry H h m k i v) m = (contents h m)[k := assign H (contents h m ! k) i v]"
proof (rule nth_equalityI)
  show "length (contents (setEntry H h m k i v) m) = length ((contents h m)[k := assign H (contents h m ! k) i v])"
    by (simp add: contents_def)
next
  fix r
  assume "r < length (contents (setEntry H h m k i v) m)"
  then have r: "r < length m" by (simp add: contents_def)
  have in_range: "m ! k < length h" "m ! r < length h"
    using assms r by (simp_all add: refsIn_def list_all_length)
  have "m ! r = m ! k \<longleftrightarrow> r = k"
    using assms r by (simp add: refsIn_def nth_eq_iff_index_eq)
  then show "contents (setEntry H h m k i v) m ! r = (contents h m)[k := assign H (contents h m ! k) i v] ! r"
    using r assms(2) in_range by (auto simp: contents_def setEntry_def)
qed

lemma refsIn_setEntry: "refsIn m h \<Longrightarrow> refsIn m (setEntry H h m k i v)"
  by (simp add: refsIn_def length_setEntry)

text \<open>So every loop of the solver does to the contents what the specification's step does.\<close>

lemma swapStep_contents:
  assumes "refsIn m h" "k < length m"
  shows "contents (swapStep H m i p k h) m = (contents h m)[k := swapInRow H i p (contents h m ! k)]"
    and "refsIn m (swapStep H m i p k h)"
proof -
  define v where "v = entry H h m k p"
  define t where "t = entry H h m k i"
  have v: "v = item H (contents h m ! k) p" and t: "t = item H (contents h m ! k) i"
    by (simp_all add: v_def t_def entry_contents [OF assms(2)])
  have k: "k < length (contents h m)" using assms(2) by (simp add: contents_def)
  have r1: "refsIn m (setEntry H h m k i v)" using assms(1) by (rule refsIn_setEntry)
  have c1: "contents (setEntry H h m k i v) m = (contents h m)[k := assign H (contents h m ! k) i v]"
    by (rule contents_setEntry [OF assms])
  have c2: "contents (setEntry H (setEntry H h m k i v) m k p t) m
          = (contents (setEntry H h m k i v) m)[k := assign H (contents (setEntry H h m k i v) m ! k) p t]"
    by (rule contents_setEntry [OF r1 assms(2)])
  have s: "swapStep H m i p k h = setEntry H (setEntry H h m k i v) m k p t"
    by (simp add: swapStep_def Let_def v_def t_def)
  show "contents (swapStep H m i p k h) m = (contents h m)[k := swapInRow H i p (contents h m ! k)]"
    unfolding s c2 c1 using k by (simp add: swapInRow_def v t)
  show "refsIn m (swapStep H m i p k h)"
    unfolding s using r1 by (rule refsIn_setEntry)
qed

lemma swap_fold_contents:
  assumes "refsIn m h" "\<forall>k \<in> set ks. k < length m"
  shows "contents (fold (swapStep H m i p) ks h) m
           = fold (\<lambda>k M. M[k := swapInRow H i p (M ! k)]) ks (contents h m)
         \<and> refsIn m (fold (swapStep H m i p) ks h)"
  using assms
proof (induction ks arbitrary: h)
  case Nil
  then show ?case by simp
next
  case (Cons k ks)
  have k: "k < length m" using Cons.prems(2) by simp
  have r: "refsIn m (swapStep H m i p k h)"
    using swapStep_contents(2) [OF Cons.prems(1) k] .
  show ?case
    using Cons.IH [OF r] Cons.prems(2) swapStep_contents(1) [OF Cons.prems(1) k]
    by simp
qed

lemma swapEntries_contents:
  assumes "refsIn m h" "n < length m"
  shows "contents (swapEntries H h m n i p) m = swapColumns H (contents h m) n i p"
    and "refsIn m (swapEntries H h m n i p)"
proof -
  have "\<forall>k \<in> set [i..<n + 1]. k < length m" using assms(2) by auto
  from swap_fold_contents [OF assms(1) this, of H i p]
  show "contents (swapEntries H h m n i p) m = swapColumns H (contents h m) n i p"
    and "refsIn m (swapEntries H h m n i p)"
    unfolding swapEntries_def swapColumns_def by blast+
qed

lemma eliminateStep_contents:
  assumes "refsIn m h" "k < length m" "i < length m"
  shows "contents (eliminateStep H m i j k h) m = subtractPivot H i j k (contents h m)"
    and "refsIn m (eliminateStep H m i j k h)"
  using assms
  by (simp_all add: eliminateStep_def contents_setEntry refsIn_setEntry entry_contents subtractPivot_def)

lemma eliminate_fold_contents:
  assumes "refsIn m h" "\<forall>k \<in> set ks. k < length m" "i < length m"
  shows "contents (fold (eliminateStep H m i j) ks h) m
           = fold (subtractPivot H i j) ks (contents h m)
         \<and> refsIn m (fold (eliminateStep H m i j) ks h)"
  using assms
proof (induction ks arbitrary: h)
  case Nil
  then show ?case by simp
next
  case (Cons k ks)
  have k: "k < length m" using Cons.prems(2) by simp
  have r: "refsIn m (eliminateStep H m i j k h)"
    using eliminateStep_contents(2) [OF Cons.prems(1) k Cons.prems(3)] .
  show ?case
    using Cons.IH [OF r _ Cons.prems(3)] Cons.prems(2)
      eliminateStep_contents(1) [OF Cons.prems(1) k Cons.prems(3)]
    by simp
qed

lemma eliminateColumn_contents:
  assumes "refsIn m h" "n < length m" "i \<le> n"
  shows "contents (eliminateColumn H h m n i j) m
           = fold (subtractPivot H i j) (rev [i..<n + 1]) (contents h m)"
    and "refsIn m (eliminateColumn H h m n i j)"
proof -
  have k: "\<forall>k \<in> set (rev [i..<n + 1]). k < length m" using assms(2) by auto
  have i: "i < length m" using assms(2,3) by simp
  from eliminate_fold_contents [OF assms(1) k i, of H j]
  show "contents (eliminateColumn H h m n i j) m
           = fold (subtractPivot H i j) (rev [i..<n + 1]) (contents h m)"
    and "refsIn m (eliminateColumn H h m n i j)"
    unfolding eliminateColumn_def by blast+
qed

lemma eliminate_columns_contents:
  assumes "refsIn m h" "n < length m" "i \<le> n"
  shows "contents (fold (\<lambda>j h. eliminateColumn H h m n i j) js h) m
           = fold (\<lambda>j M. fold (subtractPivot H i j) (rev [i..<n + 1]) M) js (contents h m)
         \<and> refsIn m (fold (\<lambda>j h. eliminateColumn H h m n i j) js h)"
  using assms
proof (induction js arbitrary: h)
  case Nil
  then show ?case by simp
next
  case (Cons j js)
  show ?case
    using Cons.IH [OF eliminateColumn_contents(2) [OF Cons.prems, of H j] Cons.prems(2,3)]
      eliminateColumn_contents(1) [OF Cons.prems, of H j]
    by simp
qed

lemma eliminate_contents:
  assumes "refsIn m h" "n < length m" "i \<le> n"
  shows "contents (eliminate H h m n i) m = eliminateBelow H (contents h m) n i"
    and "refsIn m (eliminate H h m n i)"
  using eliminate_columns_contents [OF assms, of H "[i + 1..<n]"]
  unfolding eliminate_def eliminateBelow_def by blast+

lemma findMaxrow_contents:
  assumes "i < length m"
  shows "findMaxrow H h m n i = largestInRow H (contents h m) n i"
  using assms by (simp add: findMaxrow_def largestInRow_def entry_contents)

lemma pivotStep_contents:
  assumes "refsIn m h" "n < length m" "i \<le> n"
  shows "contents (pivotStep H m n i h) m = pivotRound H n i (contents h m)"
    and "refsIn m (pivotStep H m n i h)"
proof -
  have i: "i < length m" using assms by simp
  note s = swapEntries_contents [OF assms(1,2), of H i "findMaxrow H h m n i"]
  show "contents (pivotStep H m n i h) m = pivotRound H n i (contents h m)"
    using eliminate_contents(1) [OF s(2) assms(2,3), of H] s(1) findMaxrow_contents [OF i, of H h n]
    by (simp add: pivotStep_def pivotRound_def)
  show "refsIn m (pivotStep H m n i h)"
    using eliminate_contents(2) [OF s(2) assms(2,3), of H]
    by (simp add: pivotStep_def)
qed

lemma pivot_fold_contents:
  assumes "refsIn m h" "n < length m" "\<forall>i \<in> set is. i \<le> n"
  shows "contents (fold (pivotStep H m n) is h) m = fold (pivotRound H n) is (contents h m)"
  using assms
proof (induction "is" arbitrary: h)
  case Nil
  then show ?case by simp
next
  case (Cons i "is")
  have i: "i \<le> n" using Cons.prems(3) by simp
  show ?case
    using Cons.IH [OF pivotStep_contents(2) [OF Cons.prems(1,2) i, of H] Cons.prems(2)]
      Cons.prems(3) pivotStep_contents(1) [OF Cons.prems(1,2) i, of H]
    by simp
qed

lemma gaussianElimination_contents:
  assumes "refsIn input h"
  shows "contents (fst (gaussianElimination H h input ord)) input = eliminatedMatrix H (contents h input)"
proof (cases "input = []")
  case True
  then show ?thesis by (simp add: gaussianElimination_def eliminatedMatrix_def contents_def)
next
  case False
  then have n: "length input - 1 < length input" by (cases input) simp_all
  have l: "length (contents h input) = length input" by (simp add: contents_def)
  show ?thesis
    using pivot_fold_contents [OF assms n, of "[0..<length input - 1]" H]
    by (simp add: gaussianElimination_def eliminatedMatrix_def Let_def l)
qed

text \<open>No other array of the heap is written, and no array is made or lost.\<close>

lemma setEntry_frame:
  assumes "k < length m"
  shows "length (setEntry H h m k i v) = length h
         \<and> (\<forall>r. r \<notin> set m \<longrightarrow> setEntry H h m k i v ! r = h ! r)"
proof -
  have "m ! k \<in> set m" using assms by simp
  then have "\<And>r. r \<notin> set m \<Longrightarrow> m ! k \<noteq> r" by auto
  then show ?thesis by (simp add: setEntry_def)
qed

lemma fold_frame:
  assumes "\<And>x g. x \<in> set xs \<Longrightarrow> length (f x g) = length g \<and> (\<forall>r. r \<notin> set m \<longrightarrow> f x g ! r = g ! r)"
  shows "length (fold f xs h) = length h \<and> (\<forall>r. r \<notin> set m \<longrightarrow> fold f xs h ! r = h ! r)"
  using assms
proof (induction xs arbitrary: h)
  case Nil
  then show ?case by simp
next
  case (Cons x xs)
  have a: "length (f x h) = length h \<and> (\<forall>r. r \<notin> set m \<longrightarrow> f x h ! r = h ! r)"
    using Cons.prems [of x h] by simp
  have b: "length (fold f xs (f x h)) = length (f x h) \<and> (\<forall>r. r \<notin> set m \<longrightarrow> fold f xs (f x h) ! r = f x h ! r)"
    using Cons.IH [of "f x h"] Cons.prems by simp
  show ?case using a b by simp
qed

lemma swapStep_frame:
  assumes "k < length m"
  shows "length (swapStep H m i p k h) = length h \<and> (\<forall>r. r \<notin> set m \<longrightarrow> swapStep H m i p k h ! r = h ! r)"
  using setEntry_frame [OF assms, of H h i "entry H h m k p"]
    setEntry_frame [OF assms, of H "setEntry H h m k i (entry H h m k p)" p "entry H h m k i"]
  by (simp add: swapStep_def Let_def)

lemma eliminateStep_frame:
  assumes "k < length m"
  shows "length (eliminateStep H m i j k h) = length h \<and> (\<forall>r. r \<notin> set m \<longrightarrow> eliminateStep H m i j k h ! r = h ! r)"
  using setEntry_frame [OF assms] by (simp add: eliminateStep_def)

lemma pivotStep_frame:
  assumes "n < length m"
  shows "length (pivotStep H m n i h) = length h \<and> (\<forall>r. r \<notin> set m \<longrightarrow> pivotStep H m n i h ! r = h ! r)"
proof -
  have s: "\<And>p g. length (swapEntries H g m n i p) = length g \<and> (\<forall>r. r \<notin> set m \<longrightarrow> swapEntries H g m n i p ! r = g ! r)"
    unfolding swapEntries_def using assms by (intro fold_frame swapStep_frame) auto
  have c: "\<And>j g. length (eliminateColumn H g m n i j) = length g \<and> (\<forall>r. r \<notin> set m \<longrightarrow> eliminateColumn H g m n i j ! r = g ! r)"
    unfolding eliminateColumn_def using assms by (intro fold_frame eliminateStep_frame) auto
  have e: "\<And>g. length (eliminate H g m n i) = length g \<and> (\<forall>r. r \<notin> set m \<longrightarrow> eliminate H g m n i ! r = g ! r)"
    unfolding eliminate_def by (intro fold_frame c)
  show ?thesis using s e by (simp add: pivotStep_def)
qed

lemma gaussianElimination_frame:
  "length (fst (gaussianElimination H h input ord)) = length h
   \<and> (\<forall>r. r \<notin> set input \<longrightarrow> fst (gaussianElimination H h input ord) ! r = h ! r)"
proof (cases "input = []")
  case True
  then show ?thesis by (simp add: gaussianElimination_def)
next
  case False
  then have n: "length input - 1 < length input" by (cases input) simp_all
  have "length (fold (pivotStep H input (length input - 1)) [0..<length input - 1] h) = length h
        \<and> (\<forall>r. r \<notin> set input \<longrightarrow> fold (pivotStep H input (length input - 1)) [0..<length input - 1] h ! r = h ! r)"
    by (intro fold_frame pivotStep_frame n)
  then show ?thesis by (simp add: gaussianElimination_def Let_def)
qed

text \<open>
  The polynomial fit, the one caller in the source, passes arrays it has just built, each
  under its own reference.
\<close>

lemma polynomialRhs_refs:
  "distinct [0..<length (polynomialRhs H apoints k)]
   \<and> (\<forall>r \<in> set [0..<length (polynomialRhs H apoints k)]. r < length (polynomialRhs H apoints k))"
  by simp

text \<open>
  C9: \<open>gaussianElimination\<close> updates the matrix passed to it in place, in every
  arithmetic. For every heap and every matrix, no array other than those of the matrix
  is written and no array is made; and when the references of the matrix lead to
  different arrays of the heap, the arrays of the caller's matrix hold after the call
  the eliminated matrix, which is what the column swaps and row reductions of the
  algorithm make of the entries they held before the call.
\<close>

theorem gaussianElimination_updates_input:
  "(distinct input \<and> (\<forall>r \<in> set input. r < length h) \<longrightarrow>
      contents (fst (gaussianElimination H h input ord)) input = eliminatedMatrix H (contents h input))
   \<and> length (fst (gaussianElimination H h input ord)) = length h
   \<and> (\<forall>r. r \<notin> set input \<longrightarrow> fst (gaussianElimination H h input ord) ! r = h ! r)"
proof -
  have "distinct input \<and> (\<forall>r \<in> set input. r < length h) \<Longrightarrow> refsIn input h"
    by (simp add: refsIn_def list_all_iff)
  then show ?thesis
    using gaussianElimination_contents [of input h H ord] gaussianElimination_frame [of H h input ord]
    by blast
qed

text \<open>
  On the system of C6, held by a caller among other arrays: after the call the caller
  reads the swapped and reduced system, zero below the pivots, and not the entries it
  passed; its other arrays are as they were.
\<close>

lemma callerMatrix_refs: "distinct callerMatrix \<and> (\<forall>r \<in> set callerMatrix. r < length callerHeap)"
  by (simp add: callerMatrix_def callerHeap_def)

lemma callerHeap_contents: "contents callerHeap callerMatrix = system3"
  by code_simp

lemma eliminatedMatrix_system3: "eliminatedMatrix exact system3 = system3b"
  by code_simp

lemma callerHeap_after:
  "fst (gaussianElimination exact callerHeap callerMatrix 3) =
     [[Fin 27, Fin (- 4), Fin (- 21 / 2)],
      [Fin 7],
      [Fin 5, Fin 2, Fin 0],
      [Fin 2, Fin 0, Fin 0],
      [Fin 8, Fin 9],
      [Fin (- 1), Fin 5, Fin (21 / 4)]]"
  by code_simp

theorem gaussianElimination_updates_input_witness:
  "distinct callerMatrix \<and> list_all (\<lambda>r. r < length callerHeap) callerMatrix
   \<and> contents callerHeap callerMatrix = system3
   \<and> contents (fst (gaussianElimination exact callerHeap callerMatrix 3)) callerMatrix = system3b
   \<and> system3b \<noteq> system3
   \<and> fst (gaussianElimination exact callerHeap callerMatrix 3) ! 1 = callerHeap ! 1
   \<and> fst (gaussianElimination exact callerHeap callerMatrix 3) ! 4 = callerHeap ! 4"
proof -
  have d: "system3b \<noteq> system3" by (simp add: system3_def system3b_def)
  have o: "1 \<notin> set callerMatrix" "4 \<notin> set callerMatrix" by (simp_all add: callerMatrix_def)
  from gaussianElimination_updates_input [of callerMatrix callerHeap exact 3]
  show ?thesis
    using callerMatrix_refs callerHeap_contents eliminatedMatrix_system3 d o
    by (simp add: list_all_iff)
qed

text \<open>
  The eliminated matrix is reduced up to the rounding of the arithmetic only. In doubles
  the entry the first round is to clear may be left beside 0: on \<open>tenthSystem\<close> it is
  \<open>0.1 - (3 * 0.1) / 3\<close>, where the product and the quotient are rounded, and
  \<open>-2\<^bsup>-56\<^esup>\<close> is what the caller finds.
\<close>

lemma tenthSystem_eliminated:
  "eliminatedMatrix binary64 tenthSystem
     = [[dbl 3, Double (Fin (- 1 / 2 ^ 56))],
        [dbl 1, dbl 1.9666666666666666],
        [dbl 1, dbl 0.9666666666666667]]"
  by (simp add: eliminatedMatrix_def tenthSystem_def pivotRound_def eliminateBelow_def swapColumns_def
        largestInRow_def subtractPivot_def swapInRow_def item_def assign_def binary64_sel b64
        upt_conv_Cons)

end
